theory Spec2Isabelle
  imports Complex_Main "HOL-Library.Char_ord" "HOL-Library.List_Lexorder" "HOL-Library.Multiset"
begin

section \<open>Errors\<close>

text \<open>
  Every exception of the modelled code is a value. \<open>GeoKitError\<close> carries the message
  the source raises it with. \<open>MisalignedTile\<close> is the resolver's failure and
  \<open>BackendIOError\<close> a failure of the raster storage, both named by the spec.
  \<open>IndexError\<close> and \<open>ZeroDivisionError\<close> are Python's own.
\<close>

datatype error =
    GeoKitError string
  | MisalignedTile
  | BackendIOError
  | IndexError
  | ZeroDivisionError

section \<open>Flattening a list of geometries\<close>

text \<open>
  \<^verbatim>\<open>geokit/_core/geomutil.py\<close>, \<^verbatim>\<open>flatten(geoms)\<close>. A geometry is a value of an
  arbitrary type \<open>'g\<close>; the method \<^verbatim>\<open>Union\<close> of the geometry engine is the parameter
  \<open>u\<close>. One round of the \<^verbatim>\<open>for gi in range(0, len(geoms), 2)\<close> loop unions the
  geometries at positions \<open>gi\<close> and \<open>gi + 1\<close>; when \<open>gi + 1\<close> is past the end (the
  \<^verbatim>\<open>IndexError\<close> branch) the geometry at \<open>gi\<close> is carried over as it is.
\<close>

fun pairUnion :: "('g \<Rightarrow> 'g \<Rightarrow> 'g) \<Rightarrow> 'g list \<Rightarrow> 'g list" where
  "pairUnion u (a # b # rest) = u a b # pairUnion u rest"
| "pairUnion u [a] = [a]"
| "pairUnion u [] = []"

lemma length_pairUnion: "length (pairUnion u gs) = (length gs + 1) div 2"
  by (induction u gs rule: pairUnion.induct) auto

text \<open>The \<^verbatim>\<open>while len(geoms) > 1\<close> loop.\<close>

function flattenLoop :: "('g \<Rightarrow> 'g \<Rightarrow> 'g) \<Rightarrow> 'g list \<Rightarrow> 'g list" where
  "flattenLoop u [] = []"
| "flattenLoop u [a] = [a]"
| "flattenLoop u (a # b # rest) = flattenLoop u (pairUnion u (a # b # rest))"
  by pat_completeness auto
termination
  by (relation "measure (\<lambda>(u, gs). length gs)") (auto simp: length_pairUnion)

text \<open>
  \<^verbatim>\<open>flatten\<close> returns Python's \<^verbatim>\<open>None\<close> for an empty list and \<^verbatim>\<open>geoms[0]\<close> after
  the loop otherwise; \<^verbatim>\<open>geoms[0]\<close> on an empty list would raise, which
  \<open>flattenLoop_single\<close> below shows cannot happen.
\<close>

datatype 'g flattened = PyNone | Geom 'g

definition flatten :: "('g \<Rightarrow> 'g \<Rightarrow> 'g) \<Rightarrow> 'g list \<Rightarrow> error + 'g flattened" where
  "flatten u geoms =
     (if length geoms = 0 then Inr PyNone
      else (case flattenLoop u geoms of [] \<Rightarrow> Inl IndexError | g # _ \<Rightarrow> Inr (Geom g)))"

text \<open>The naive accumulation the spec compares with: a left fold of the union.\<close>

definition naiveUnion :: "('g \<Rightarrow> 'g \<Rightarrow> 'g) \<Rightarrow> 'g list \<Rightarrow> error + 'g flattened" where
  "naiveUnion u geoms =
     (case geoms of [] \<Rightarrow> Inr PyNone | g # gs \<Rightarrow> Inr (Geom (foldl u g gs)))"

text \<open>What the spec assumes of the engine's union.\<close>

definition associative :: "('g \<Rightarrow> 'g \<Rightarrow> 'g) \<Rightarrow> bool" where
  "associative u = (\<forall>a b c. u (u a b) c = u a (u b c))"

definition commutative :: "('g \<Rightarrow> 'g \<Rightarrow> 'g) \<Rightarrow> bool" where
  "commutative u = (\<forall>a b. u a b = u b a)"

section \<open>Rasters\<close>

text \<open>
  \<^verbatim>\<open>rasterInfo(d)\<close> gives the metadata of a raster: spatial reference, pixel size,
  bounds, datatype, nodata value (Python's \<^verbatim>\<open>None\<close> when the raster declares none) and
  row orientation. Coordinates and pixel sizes are exact reals here; the spatial
  reference, the datatype and the pixel values are of arbitrary types \<open>'s\<close>, \<open>'t\<close> and
  \<open>'a\<close>. Which pixel values are not-a-number is a parameter of the model (\<open>isnan\<close>
  below), and the comparisons of the source are \<open>differs\<close>, under which such a value
  differs from itself.
\<close>

record ('s, 't, 'a) rasterInfo =
  srs :: 's
  dx :: real
  dy :: real
  xMin :: real
  yMin :: real
  xMax :: real
  yMax :: real
  dtype :: 't
  noData :: "'a option"
  yAtTop :: bool

definition bounds :: "('s, 't, 'a) rasterInfo \<Rightarrow> real \<times> real \<times> real \<times> real" where
  "bounds i = (xMin i, yMin i, xMax i, yMax i)"

text \<open>
  A raster is its metadata and the matrix of its single band: a list of rows, row 0
  first, as \<^verbatim>\<open>fetchMatrix\<close> and \<^verbatim>\<open>ReadAsArray\<close> return it.
\<close>

record ('s, 't, 'a) raster =
  info :: "('s, 't, 'a) rasterInfo"
  band :: "'a list list"

text \<open>
  An element of \<^verbatim>\<open>datasets\<close> is a path or an open \<^verbatim>\<open>gdal.Dataset\<close>; the argument itself
  is a string (a glob pattern), one open dataset, or any other iterable.
\<close>

datatype ('s, 't, 'a) dataset = Path string | Dataset "('s, 't, 'a) raster"

datatype ('s, 't, 'a) datasets =
    Pattern string
  | Single "('s, 't, 'a) raster"
  | Iterable "('s, 't, 'a) dataset list"

text \<open>
  The file system maps a path to what is stored there. The world is the file system
  and the log of the calls that reached the storage, in order: the glob, a
  \<^verbatim>\<open>rasterInfo\<close> call on the dataset at an index, the \<^verbatim>\<open>isfile\<close> test, the creation and
  the opening of the master, the read-merge-write-flush cycle started for the dataset
  at an index, and the final statistics. \<^verbatim>\<open>print\<close> is not modelled.
\<close>

datatype ('s, 't, 'a) stored = RasterFile "('s, 't, 'a) raster" | OtherFile

datatype event =
    Globbed string
  | InfoRead nat
  | FileTested string
  | RasterCreated string
  | RasterOpened string
  | TileMerge nat
  | StatsComputed string

record ('s, 't, 'a) world =
  files :: "string \<Rightarrow> ('s, 't, 'a) stored option"
  events :: "event list"

definition logged :: "event \<Rightarrow> ('s, 't, 'a) world \<Rightarrow> ('s, 't, 'a) world" where
  "logged e w = w\<lparr>events := events w @ [e]\<rparr>"

text \<open>
  What the code takes from the libraries under it and the sources do not hold:
  \<^verbatim>\<open>SpatialReference.IsSame\<close>, the result of \<^verbatim>\<open>glob\<close> for a pattern (in the order the
  operating system lists it), the tolerance of the sub-window resolver, which pixel
  values are not-a-number, and for a newly created raster the value of a pixel that was
  given no fill value and the row orientation.
\<close>

record ('s, 'a) backend =
  IsSame :: "'s \<Rightarrow> 's \<Rightarrow> bool"
  glob :: "string \<Rightarrow> string list"
  tolerance :: real
  isnan :: "'a \<Rightarrow> bool"
  emptyValue :: 'a
  createdYAtTop :: bool

text \<open>
  The comparison \<^verbatim>\<open>!=\<close> of numpy and of Python's floats: a not-a-number value differs
  from every value, itself included.
\<close>

definition differs :: "('s, 'a) backend \<Rightarrow> 'a \<Rightarrow> 'a \<Rightarrow> bool" where
  "differs be a b = (isnan be a \<or> isnan be b \<or> a \<noteq> b)"

subsection \<open>Matrices and windows\<close>

text \<open>
  A numpy matrix is rectangular; \<open>isMatrix\<close> says so of a list of rows. The band's
  \<^verbatim>\<open>XSize\<close> is \<open>ncols\<close>, its \<^verbatim>\<open>YSize\<close> the number of rows.
\<close>

definition ncols :: "'a list list \<Rightarrow> nat" where
  "ncols b = (case b of [] \<Rightarrow> 0 | r # _ \<Rightarrow> length r)"

definition isMatrix :: "'a list list \<Rightarrow> bool" where
  "isMatrix b = list_all (\<lambda>r. length r = ncols b) b"

text \<open>
  Python's slice \<^verbatim>\<open>xs[k:k+n]\<close>, and the list after the slice assignment
  \<^verbatim>\<open>xs[k:k+len(new)] = new\<close>.
\<close>

definition slice :: "nat \<Rightarrow> nat \<Rightarrow> 'b list \<Rightarrow> 'b list" where
  "slice k n xs = take n (drop k xs)"

definition paste :: "nat \<Rightarrow> 'b list \<Rightarrow> 'b list \<Rightarrow> 'b list" where
  "paste k xs new = take k xs @ new @ drop (k + length new) xs"

text \<open>
  Modelled from the spec: \<^verbatim>\<open>RasterBand.readWindow\<close> (GDAL's \<^verbatim>\<open>ReadAsArray\<close>) reads a
  rectangular pixel window; a window that is not inside the band is an I/O failure,
  which is surfaced.
\<close>

definition ReadAsArray ::
  "'a list list \<Rightarrow> int \<Rightarrow> int \<Rightarrow> int \<Rightarrow> int \<Rightarrow> error + 'a list list" where
  "ReadAsArray b xoff yoff win_xsize win_ysize =
     (if isMatrix b \<and> 0 \<le> xoff \<and> 0 \<le> yoff \<and> 0 \<le> win_xsize \<and> 0 \<le> win_ysize
         \<and> xoff + win_xsize \<le> int (ncols b) \<and> yoff + win_ysize \<le> int (length b)
      then Inr (map (slice (nat xoff) (nat win_xsize)) (slice (nat yoff) (nat win_ysize) b))
      else Inl BackendIOError)"

text \<open>
  Modelled from the spec: \<^verbatim>\<open>RasterBand.writeWindow\<close> (GDAL's \<^verbatim>\<open>WriteArray\<close>) writes the
  matrix as the window whose first pixel is at \<open>(xoff, yoff)\<close>; a matrix that does not
  fit inside the band is an I/O failure.
\<close>

definition WriteArray ::
  "'a list list \<Rightarrow> 'a list list \<Rightarrow> int \<Rightarrow> int \<Rightarrow> error + 'a list list" where
  "WriteArray b array xoff yoff =
     (if isMatrix b \<and> isMatrix array \<and> 0 \<le> xoff \<and> 0 \<le> yoff
         \<and> xoff + int (ncols array) \<le> int (ncols b)
         \<and> yoff + int (length array) \<le> int (length b)
      then Inr (paste (nat yoff) b
                  (map2 (paste (nat xoff)) (slice (nat yoff) (length array) b) array))
      else Inl BackendIOError)"

subsection \<open>The sub-window resolver\<close>

record subWindow =
  xStart :: int
  yStart :: int
  xWin :: int
  yWin :: int

definition onGrid :: "real \<Rightarrow> real \<Rightarrow> bool" where
  "onGrid tol v = (\<bar>v - of_int (round v)\<bar> \<le> tol)"

text \<open>
  Modelled from the spec: \<^verbatim>\<open>Extent.findWithin\<close>, the SpatialIndexResolver of the spec
  (section 4.2), which is not among the sources. The first extent is the master's, the
  second the tile's, each as \<open>(xMin, yMin, xMax, yMax)\<close>. The four quotients are
  rounded, and each must be within the tolerance of its rounding. A zero pixel size,
  for which Python's division raises, is an error.
\<close>

definition findWithin ::
  "real \<Rightarrow> real \<times> real \<times> real \<times> real \<Rightarrow> real \<times> real \<times> real \<times> real
     \<Rightarrow> real \<times> real \<Rightarrow> bool \<Rightarrow> error + subWindow" where
  "findWithin tol mExtent dExtent res atTop =
     (case mExtent of (masterXMin, masterYMin, masterXMax, masterYMax) \<Rightarrow>
      case dExtent of (subXMin, subYMin, subXMax, subYMax) \<Rightarrow>
      case res of (rx, ry) \<Rightarrow>
        if rx = 0 \<or> ry = 0 then Inl ZeroDivisionError
        else
          let xs = (subXMin - masterXMin) / rx;
              ys = (if atTop then (masterYMax - subYMax) / ry
                    else (subYMin - masterYMin) / ry);
              xw = (subXMax - subXMin) / rx;
              yw = (subYMax - subYMin) / ry
          in if onGrid tol xs \<and> onGrid tol ys \<and> onGrid tol xw \<and> onGrid tol yw
             then Inr \<lparr>xStart = round xs, yStart = round ys, xWin = round xw, yWin = round yw\<rparr>
             else Inl MisalignedTile)"

subsection \<open>Merging one tile into the master\<close>

text \<open>
  The selector of the source, lines 91 to 98. A custom \<^verbatim>\<open>combiningFunc\<close> is called with
  the master window, the master's info, the tile matrix and the tile's info. Otherwise,
  for a tile with a nodata value, \<^verbatim>\<open>sel = dMatrix != noData\<close> (numpy's comparison,
  \<open>differs\<close>) and \<^verbatim>\<open>mMatrix[sel] = dMatrix[sel]\<close>: numpy raises \<^verbatim>\<open>IndexError\<close> when the mask and
  \<^verbatim>\<open>mMatrix\<close> differ in shape. Otherwise the tile matrix is written as it is.
\<close>

type_synonym ('s, 't, 'a) combining =
  "'a list list \<Rightarrow> ('s, 't, 'a) rasterInfo \<Rightarrow> 'a list list \<Rightarrow> ('s, 't, 'a) rasterInfo
     \<Rightarrow> 'a list list"

definition overlay ::
  "('s, 'a) backend \<Rightarrow> 'a \<Rightarrow> 'a list list \<Rightarrow> 'a list list \<Rightarrow> 'a list list" where
  "overlay be nd mMatrix dMatrix =
     map2 (\<lambda>mRow dRow. map2 (\<lambda>m d. if differs be d nd then d else m) mRow dRow)
       mMatrix dMatrix"

definition mergeMatrix ::
  "('s, 'a) backend \<Rightarrow> ('s, 't, 'a) combining option \<Rightarrow> 'a list list
     \<Rightarrow> ('s, 't, 'a) rasterInfo \<Rightarrow> 'a list list \<Rightarrow> ('s, 't, 'a) rasterInfo
     \<Rightarrow> error + 'a list list" where
  "mergeMatrix be combiningFunc mMatrix mInfo dMatrix dInfo =
     (case combiningFunc of
        Some f \<Rightarrow> Inr (f mMatrix mInfo dMatrix dInfo)
      | None \<Rightarrow>
          (case noData dInfo of
             Some nd \<Rightarrow>
               if map length mMatrix = map length dMatrix
               then Inr (overlay be nd mMatrix dMatrix)
               else Inl IndexError
           | None \<Rightarrow> Inr dMatrix))"

text \<open>
  The body of the loop over the datasets, lines 76 to 102, on the open master \<open>m\<close>:
  the tile matrix is turned top-down, the window is resolved with the master's pixel
  size and orientation, the master window is read, merged and written back.
\<close>

definition normalised :: "('s, 't, 'a) rasterInfo \<Rightarrow> 'a list list \<Rightarrow> 'a list list" where
  "normalised dInfo dBand = (if yAtTop dInfo then dBand else rev dBand)"

definition tileWindow ::
  "('s, 'a) backend \<Rightarrow> ('s, 't, 'a) rasterInfo \<Rightarrow> ('s, 't, 'a) rasterInfo \<Rightarrow> error + subWindow" where
  "tileWindow be mInfo dInfo =
     findWithin (tolerance be) (bounds mInfo) (bounds dInfo) (dx mInfo, dy mInfo) (yAtTop mInfo)"

definition applyTile ::
  "('s, 'a) backend \<Rightarrow> ('s, 't, 'a) combining option \<Rightarrow> ('s, 't, 'a) raster
     \<Rightarrow> ('s, 't, 'a) rasterInfo \<Rightarrow> 'a list list \<Rightarrow> error + ('s, 't, 'a) raster" where
  "applyTile be combiningFunc m dInfo dBand =
     (let dMatrix = normalised dInfo dBand in
      case tileWindow be (info m) dInfo of
        Inl e \<Rightarrow> Inl e
      | Inr idx \<Rightarrow>
          (case ReadAsArray (band m) (xStart idx) (yStart idx) (xWin idx) (yWin idx) of
             Inl e \<Rightarrow> Inl e
           | Inr mMatrix \<Rightarrow>
               (case mergeMatrix be combiningFunc mMatrix (info m) dMatrix dInfo of
                  Inl e \<Rightarrow> Inl e
                | Inr writeMatrix \<Rightarrow>
                    (case WriteArray (band m) writeMatrix (xStart idx) (yStart idx) of
                       Inl e \<Rightarrow> Inl e
                     | Inr b \<Rightarrow> Inr (m\<lparr>band := b\<rparr>)))))"

subsection \<open>combineSimilarRasters\<close>

text \<open>
  \<^verbatim>\<open>geokit/_algorithms/combineSimilarRasters.py\<close>. Lines 9 to 15: a string is a glob
  pattern, whose matches are sorted (Python orders strings by code point, as the order
  of \<open>string\<close> does here); one open dataset becomes a list of one; anything else is
  listed as it is.
\<close>

definition listDatasets ::
  "('s, 'a) backend \<Rightarrow> ('s, 't, 'a) world \<Rightarrow> ('s, 't, 'a) datasets
     \<Rightarrow> ('s, 't, 'a) world \<times> ('s, 't, 'a) dataset list" where
  "listDatasets be w datasets =
     (case datasets of
        Pattern p \<Rightarrow> (logged (Globbed p) w, map Path (sort (glob be p)))
      | Single d \<Rightarrow> (w, [Dataset d])
      | Iterable ds \<Rightarrow> (w, ds))"

text \<open>
  A path is opened with GDAL, which fails when no raster is stored there; an open
  dataset is used as it is.
\<close>

definition loadRaster ::
  "(string \<Rightarrow> ('s, 't, 'a) stored option) \<Rightarrow> ('s, 't, 'a) dataset
     \<Rightarrow> error + ('s, 't, 'a) raster" where
  "loadRaster fs d =
     (case d of
        Dataset r \<Rightarrow> Inr r
      | Path p \<Rightarrow> (case fs p of Some (RasterFile r) \<Rightarrow> Inr r | _ \<Rightarrow> Inl BackendIOError))"

text \<open>Line 20: \<^verbatim>\<open>infoSet = [rasterInfo(d) for d in datasets]\<close>.\<close>

fun rasterInfos ::
  "('s, 't, 'a) world \<Rightarrow> nat \<Rightarrow> ('s, 't, 'a) dataset list
     \<Rightarrow> ('s, 't, 'a) world \<times> (error + ('s, 't, 'a) rasterInfo list)" where
  "rasterInfos w i [] = (w, Inr [])"
| "rasterInfos w i (d # ds) =
     (let w1 = logged (InfoRead i) w in
      case loadRaster (files w1) d of
        Inl e \<Rightarrow> (w1, Inl e)
      | Inr r \<Rightarrow>
          (case rasterInfos w1 (Suc i) ds of
             (w2, Inl e) \<Rightarrow> (w2, Inl e)
           | (w2, Inr infos) \<Rightarrow> (w2, Inr (info r # infos))))"

text \<open>Lines 23 to 29: every later tile is compared with the first.\<close>

fun checkSimilar ::
  "('s, 'a) backend \<Rightarrow> ('s, 't, 'a) rasterInfo \<Rightarrow> ('s, 't, 'a) rasterInfo list
     \<Rightarrow> error option" where
  "checkSimilar be first [] = None"
| "checkSimilar be first (i # rest) =
     (if \<not> IsSame be (srs i) (srs first)
        then Some (GeoKitError ''SRS does not match in datasets'')
      else if \<not> (dx i = dx first \<and> dy i = dy first)
        then Some (GeoKitError ''Resolution does not match in datasets'')
      else if \<not> (dtype i = dtype first)
        then Some (GeoKitError ''Datatype does not match in datasets'')
      else checkSimilar be first rest)"

text \<open>Lines 9 to 29 together: the list of datasets and their infos, or the error.\<close>

definition readDatasets ::
  "('s, 'a) backend \<Rightarrow> ('s, 't, 'a) world \<Rightarrow> ('s, 't, 'a) datasets
     \<Rightarrow> ('s, 't, 'a) world
         \<times> (error + ('s, 't, 'a) dataset list \<times> ('s, 't, 'a) rasterInfo list)" where
  "readDatasets be w datasets =
     (case listDatasets be w datasets of (w1, ds) \<Rightarrow>
        if length ds = 0 then (w1, Inl (GeoKitError ''No datasets given''))
        else
          (case rasterInfos w1 0 ds of
             (w2, Inl e) \<Rightarrow> (w2, Inl e)
           | (w2, Inr infoSet) \<Rightarrow>
               (case infoSet of
                  [] \<Rightarrow> (w2, Inl IndexError)
                | first # others \<Rightarrow>
                    (case checkSimilar be first others of
                       Some e \<Rightarrow> (w2, Inl e)
                     | None \<Rightarrow> (w2, Inr (ds, infoSet))))))"

text \<open>
  Line 43 builds a Python set of the tiles' nodata values. An object is added to a set
  unless the set holds an element that is the same object or is equal to it
  (\<^verbatim>\<open>==\<close>). \<^verbatim>\<open>rasterInfo\<close> gives every tile a nodata object of its own (a float) or
  \<^verbatim>\<open>None\<close>: two \<^verbatim>\<open>None\<close> are the same object, two floats are the same element when they
  do not differ, so not-a-number values of different tiles are different elements.
  The set is the list of its elements in the order they were added.
\<close>

definition sameElement :: "('s, 'a) backend \<Rightarrow> 'a option \<Rightarrow> 'a option \<Rightarrow> bool" where
  "sameElement be x y =
     (case x of
        None \<Rightarrow> y = None
      | Some a \<Rightarrow> (case y of None \<Rightarrow> False | Some b \<Rightarrow> \<not> differs be a b))"

definition pySetAdd :: "('b \<Rightarrow> 'b \<Rightarrow> bool) \<Rightarrow> 'b list \<Rightarrow> 'b \<Rightarrow> 'b list" where
  "pySetAdd same elems x = (if list_ex (\<lambda>e. same e x) elems then elems else elems @ [x])"

definition pySet :: "('b \<Rightarrow> 'b \<Rightarrow> bool) \<Rightarrow> 'b list \<Rightarrow> 'b list" where
  "pySet same xs = foldl (pySetAdd same) [] xs"

text \<open>
  Lines 40 to 44: the nodata value of a new master; \<^verbatim>\<open>noDataSet.pop()\<close> of a set of one
  element is that element.
\<close>

definition chooseNoData ::
  "('s, 'a) backend \<Rightarrow> 'a option \<Rightarrow> ('s, 't, 'a) rasterInfo list \<Rightarrow> 'a option" where
  "chooseNoData be noDataValue infoSet =
     (case noDataValue of
        Some v \<Rightarrow> Some v
      | None \<Rightarrow>
          (let noDataSet = pySet (sameElement be) (map noData infoSet)
           in if length noDataSet = 1 then hd noDataSet else None))"

text \<open>
  Modelled from the spec: \<^verbatim>\<open>createRaster\<close> (the spec's \<^verbatim>\<open>RasterStore.create\<close>), which
  is not among the sources, allocates a raster sized to cover the bounds at the given
  resolution, pre-filled with the fill value, or with the backend's empty value when
  there is none. The further creation options of \<^verbatim>\<open>**kwargs\<close> are not modelled.
\<close>

definition createRaster ::
  "('s, 'a) backend \<Rightarrow> real \<times> real \<times> real \<times> real \<Rightarrow> 't \<Rightarrow> real \<Rightarrow> real
     \<Rightarrow> 'a option \<Rightarrow> 's \<Rightarrow> 'a option \<Rightarrow> error + ('s, 't, 'a) raster" where
  "createRaster be bnds dt pixelWidth pixelHeight noDataValue sr fillValue =
     (case bnds of (x0, y0, x1, y1) \<Rightarrow>
        if pixelWidth = 0 \<or> pixelHeight = 0 then Inl ZeroDivisionError
        else
          let cols = nat \<lceil>(x1 - x0) / pixelWidth\<rceil>;
              rows = nat \<lceil>(y1 - y0) / pixelHeight\<rceil>;
              v = (case fillValue of Some f \<Rightarrow> f | None \<Rightarrow> emptyValue be)
          in Inr \<lparr>info = \<lparr>srs = sr, dx = pixelWidth, dy = pixelHeight,
                            xMin = x0, yMin = y0, xMax = x1, yMax = y1,
                            dtype = dt, noData = noDataValue,
                            yAtTop = createdYAtTop be\<rparr>,
                   band = replicate rows (replicate cols v)\<rparr>)"

text \<open>
  Lines 32 to 66: the bounds of the whole group, the creation of the master when no
  file is at its path, its opening and the comparison of its info with the first
  tile's.
\<close>

definition openMaster ::
  "('s, 'a) backend \<Rightarrow> ('s, 't, 'a) world \<Rightarrow> string \<Rightarrow> ('s, 't, 'a) rasterInfo list
     \<Rightarrow> 'a option \<Rightarrow> ('s, 't, 'a) world \<times> (error + ('s, 't, 'a) raster)" where
  "openMaster be w master infoSet noDataValue =
     (case infoSet of
        [] \<Rightarrow> (w, Inl IndexError)
      | first # others \<Rightarrow>
         (let dataXMin = foldl min (xMin first) (map xMin others);
              dataXMax = foldl max (xMax first) (map xMax others);
              dataYMin = foldl min (yMin first) (map yMin others);
              dataYMax = foldl max (yMax first) (map yMax others);
              w1 = logged (FileTested master) w;
              made =
                (if files w1 master = None then
                   (let nd = chooseNoData be noDataValue infoSet in
                    case createRaster be (dataXMin, dataYMin, dataXMax, dataYMax)
                           (dtype first) (dx first) (dy first) nd (srs first) nd of
                      Inl e \<Rightarrow> (w1, Some e)
                    | Inr r \<Rightarrow>
                        (logged (RasterCreated master)
                           (w1\<lparr>files := (files w1)(master \<mapsto> RasterFile r)\<rparr>), None))
                 else (w1, None))
          in (case made of
               (w2, Some e) \<Rightarrow> (w2, Inl e)
             | (w2, None) \<Rightarrow>
                 (let w3 = logged (RasterOpened master) w2 in
                  case files w3 master of
                    Some (RasterFile m) \<Rightarrow>
                      if \<not> IsSame be (srs (info m)) (srs first)
                        then (w3, Inl (GeoKitError ''SRS's do not match master dataset''))
                      else if \<not> (dx (info m) = dx first \<and> dy (info m) = dy first)
                        then (w3, Inl (GeoKitError ''Resolution's do not match master dataset''))
                      else if \<not> (dtype (info m) = dtype first)
                        then (w3, Inl (GeoKitError ''Datatype's do not match master dataset''))
                      else (w3, Inr m)
                  | _ \<Rightarrow> (w3, Inl BackendIOError)))))"

text \<open>
  Lines 71 to 102: the datasets are merged in order, each with the info read at line
  20 and the matrix fetched now; every write is flushed to the file of the master
  before the next dataset is fetched.
\<close>

fun addDatasets ::
  "('s, 'a) backend \<Rightarrow> ('s, 't, 'a) combining option \<Rightarrow> string \<Rightarrow> ('s, 't, 'a) world
     \<Rightarrow> ('s, 't, 'a) raster \<Rightarrow> nat \<Rightarrow> (('s, 't, 'a) rasterInfo \<times> ('s, 't, 'a) dataset) list
     \<Rightarrow> ('s, 't, 'a) world \<times> (error + ('s, 't, 'a) raster)" where
  "addDatasets be combiningFunc master w m i [] = (w, Inr m)"
| "addDatasets be combiningFunc master w m i ((dInfo, d) # rest) =
     (let w1 = logged (TileMerge i) w in
      case loadRaster (files w1) d of
        Inl e \<Rightarrow> (w1, Inl e)
      | Inr r \<Rightarrow>
          (case applyTile be combiningFunc m dInfo (band r) of
             Inl e \<Rightarrow> (w1, Inl e)
           | Inr m' \<Rightarrow>
               addDatasets be combiningFunc master
                 (w1\<lparr>files := (files w1)(master \<mapsto> RasterFile m')\<rparr>) m' (Suc i) rest))"

text \<open>
  The whole operation: the world after the call, and the error raised if any. The
  keyword \<^verbatim>\<open>noDataValue\<close> of \<^verbatim>\<open>**kwargs\<close> is the last argument.
\<close>

definition combineSimilarRasters ::
  "('s, 'a) backend \<Rightarrow> ('s, 't, 'a) world \<Rightarrow> string \<Rightarrow> ('s, 't, 'a) datasets
     \<Rightarrow> ('s, 't, 'a) combining option \<Rightarrow> 'a option
     \<Rightarrow> ('s, 't, 'a) world \<times> error option" where
  "combineSimilarRasters be w master datasets combiningFunc noDataValue =
     (case readDatasets be w datasets of
        (w1, Inl e) \<Rightarrow> (w1, Some e)
      | (w1, Inr (ds, infoSet)) \<Rightarrow>
          (case openMaster be w1 master infoSet noDataValue of
             (w2, Inl e) \<Rightarrow> (w2, Some e)
           | (w2, Inr m) \<Rightarrow>
               (case addDatasets be combiningFunc master w2 m 0 (zip infoSet ds) of
                  (w3, Inl e) \<Rightarrow> (w3, Some e)
                | (w3, Inr m') \<Rightarrow> (logged (StatsComputed master) w3, None))))"


subsection \<open>Vocabulary of the statements\<close>

text \<open>
  The events that only read the inputs: the glob and the \<^verbatim>\<open>rasterInfo\<close> calls. Every
  other event tests, creates, opens, merges into or summarises the master.
\<close>

fun readsInput :: "event \<Rightarrow> bool" where
  "readsInput (Globbed p) = True"
| "readsInput (InfoRead i) = True"
| "readsInput e = False"

text \<open>A tile disagrees with the first one on a field the source compares.\<close>

definition mismatch ::
  "('s, 'a) backend \<Rightarrow> ('s, 't, 'a) rasterInfo \<Rightarrow> ('s, 't, 'a) rasterInfo \<Rightarrow> bool" where
  "mismatch be first i =
     (\<not> IsSame be (srs i) (srs first) \<or> dx i \<noteq> dx first \<or> dy i \<noteq> dy first
        \<or> dtype i \<noteq> dtype first)"


text \<open>The union of the tiles' bounding boxes, as the spec words it.\<close>

definition unionBounds :: "('s, 't, 'a) rasterInfo list \<Rightarrow> real \<times> real \<times> real \<times> real" where
  "unionBounds infoSet =
     (Min (xMin ` set infoSet), Min (yMin ` set infoSet),
      Max (xMax ` set infoSet), Max (yMax ` set infoSet))"

text \<open>
  The master stored at a path shows a tile when the window of the tile's footprint,
  read back from the master, is the tile's matrix (turned top-down).
\<close>

definition showsTile ::
  "('s, 'a) backend \<Rightarrow> ('s, 't, 'a) world \<Rightarrow> string \<Rightarrow> ('s, 't, 'a) raster \<Rightarrow> bool" where
  "showsTile be w master t =
     (let d = normalised (info t) (band t) in
      case files w master of
        Some (RasterFile m) \<Rightarrow>
          (case tileWindow be (info m) (info t) of
             Inr idx \<Rightarrow>
               ReadAsArray (band m) (xStart idx) (yStart idx) (int (ncols d)) (int (length d))
                 = Inr d
           | Inl e \<Rightarrow> False)
      | _ \<Rightarrow> False)"

section \<open>A small mosaic\<close>

text \<open>
  Concrete inputs the theorems below are evaluated on: tiles two pixels high on a grid
  of pixel size 1, a master three pixels wide, and a file system holding two tiles.
\<close>

definition exBackend :: "(nat, int) backend" where
  "exBackend = \<lparr>IsSame = (=), glob = (\<lambda>p. [''b.tif'', ''a.tif'']),
                  tolerance = 1 / 1000, isnan = (\<lambda>v. False), emptyValue = 0,
                  createdYAtTop = True\<rparr>"

definition exInfo :: "real \<Rightarrow> real \<Rightarrow> int option \<Rightarrow> (nat, string, int) rasterInfo" where
  "exInfo x0 x1 nd = \<lparr>srs = 4326, dx = 1, dy = 1, xMin = x0, yMin = 0, xMax = x1, yMax = 2,
                        dtype = ''Int32'', noData = nd, yAtTop = True\<rparr>"

definition exMaster :: "(nat, string, int) raster" where
  "exMaster = \<lparr>info = exInfo 0 3 None, band = [[10, 11, 12], [13, 14, 15]]\<rparr>"

definition exSparse :: "(nat, string, int) raster" where
  "exSparse = \<lparr>info = exInfo 1 3 (Some (- 1)), band = [[- 1, 9], [9, - 1]]\<rparr>"

definition exA :: "(nat, string, int) raster" where
  "exA = \<lparr>info = exInfo 0 2 None, band = [[1, 2], [3, 4]]\<rparr>"

definition exB :: "(nat, string, int) raster" where
  "exB = \<lparr>info = exInfo 1 3 None, band = [[5, 6], [7, 8]]\<rparr>"

definition exWorld :: "(nat, string, int) world" where
  "exWorld = \<lparr>files = [''a.tif'' \<mapsto> RasterFile exA, ''b.tif'' \<mapsto> RasterFile exB], events = []\<rparr>"

text \<open>A tile of another datatype, and a file system that already holds a master.\<close>

definition exFloat :: "(nat, string, int) raster" where
  "exFloat = \<lparr>info = (exInfo 1 3 None)\<lparr>dtype := ''Float32''\<rparr>, band = [[5, 6], [7, 8]]\<rparr>"

definition exWorldM :: "(nat, string, int) world" where
  "exWorldM = \<lparr>files = [''m.tif'' \<mapsto> RasterFile exMaster], events = []\<rparr>"

text \<open>
  A second tile with the nodata value \<open>-1\<close>, and the master that is created for the two
  tiles with that nodata value.
\<close>

definition exSparseL :: "(nat, string, int) raster" where
  "exSparseL = \<lparr>info = exInfo 0 2 (Some (- 1)), band = [[4, - 1], [- 1, 4]]\<rparr>"

definition exNew :: "(nat, string, int) raster" where
  "exNew = \<lparr>info = (exInfo 0 3 (Some (- 1))), band = [[- 1, - 1, - 1], [- 1, - 1, - 1]]\<rparr>"








section \<open>Properties of flatten\<close>

lemma foldl_assoc:
  "associative u \<Longrightarrow> foldl u (u a b) gs = u a (foldl u b gs)"
  by (induction gs arbitrary: a b) (simp_all add: associative_def)

lemma foldl_pairUnion:
  "associative u \<Longrightarrow> gs \<noteq> [] \<Longrightarrow> pairUnion u gs \<noteq> []
       \<and> foldl u (hd (pairUnion u gs)) (tl (pairUnion u gs)) = foldl u (hd gs) (tl gs)"
proof (induction u gs rule: pairUnion.induct)
  case (1 u a b rest)
  note assoc = 1(2)
  show ?case
  proof (cases rest)
    case Nil
    then show ?thesis by simp
  next
    case (Cons c cs)
    with 1 have ih: "foldl u (hd (pairUnion u rest)) (tl (pairUnion u rest)) = foldl u c cs"
      and ne: "pairUnion u rest \<noteq> []"
      by simp_all
    obtain k ks where k: "pairUnion u rest = k # ks"
      using ne by (cases "pairUnion u rest") auto
    have "foldl u (u a b) (k # ks) = u (u a b) (foldl u k ks)"
      by (simp add: foldl_assoc[OF assoc])
    also have "\<dots> = u (u a b) (foldl u c cs)"
      using ih k by simp
    also have "\<dots> = foldl u (u (u a b) c) cs"
      by (simp add: foldl_assoc[OF assoc])
    finally have "foldl u (u a b) (pairUnion u rest) = foldl u (u a b) rest"
      using k Cons by simp
    then show ?thesis by simp
  qed
qed simp_all

lemma flattenLoop_single: "gs \<noteq> [] \<Longrightarrow> \<exists>g. flattenLoop u gs = [g]"
  by (induction u gs rule: flattenLoop.induct) simp_all

lemma flattenLoop_foldl:
  "associative u \<Longrightarrow> gs \<noteq> [] \<Longrightarrow> flattenLoop u gs = [foldl u (hd gs) (tl gs)]"
proof (induction u gs rule: flattenLoop.induct)
  case (3 u a b rest)
  let ?p = "pairUnion u (a # b # rest)"
  have ne: "?p \<noteq> []" by simp
  have "flattenLoop u (a # b # rest) = flattenLoop u ?p" by simp
  also have "\<dots> = [foldl u (hd ?p) (tl ?p)]"
    using 3(1)[OF 3(2) ne] .
  also have "foldl u (hd ?p) (tl ?p) = foldl u (hd (a # b # rest)) (tl (a # b # rest))"
    using foldl_pairUnion[OF 3(2), of "a # b # rest"] by simp
  finally show ?case .
qed simp_all

lemma flatten_assoc:
  assumes assoc: "associative u"
  shows "flatten u geoms = naiveUnion u geoms"
proof (cases geoms)
  case Nil
  then show ?thesis by (simp add: flatten_def naiveUnion_def)
next
  case (Cons g gs)
  then have "flattenLoop u geoms = [foldl u g gs]"
    using flattenLoop_foldl[OF assoc, of geoms] by simp
  with Cons show ?thesis by (simp add: flatten_def naiveUnion_def)
qed

text \<open>
  C9. For every non-empty list of geometries, the balanced pairwise reduction of
  \<open>flatten\<close> returns a geometry, and it is the geometry the naive left fold of the union
  returns, when the union is associative and commutative. (Associativity alone is
  enough, see \<open>flatten_assoc\<close>: both reductions keep the geometries in list order.)
\<close>

theorem flatten_eq_naive_fold:
  assumes "associative u" and "commutative u" and "geoms \<noteq> []"
  shows "flatten u geoms = Inr (Geom (foldl u (hd geoms) (tl geoms)))
       \<and> flatten u geoms = naiveUnion u geoms"
  using assms(3) flatten_assoc[of u geoms, OF assms(1)]
  by (cases geoms) (simp_all add: naiveUnion_def)

theorem flatten_eq_naive_fold_witness:
  "associative (max :: nat \<Rightarrow> nat \<Rightarrow> nat) \<and> commutative (max :: nat \<Rightarrow> nat \<Rightarrow> nat)
   \<and> flatten max [3, 1, 4, 1, 5 :: nat] = Inr (Geom 5)
   \<and> flatten max [3, 1, 4, 1, 5 :: nat] = naiveUnion max [3, 1, 4, 1, 5]
   \<and> naiveUnion max [3, 1, 4, 1, 5 :: nat] = Inr (Geom 5)"
proof -
  have a: "associative (max :: nat \<Rightarrow> nat \<Rightarrow> nat)"
    by (simp add: associative_def max.assoc)
  have c: "commutative (max :: nat \<Rightarrow> nat \<Rightarrow> nat)"
    by (simp add: commutative_def max.commute)
  show ?thesis
    using a c flatten_eq_naive_fold[OF a c, of "[3, 1, 4, 1, 5]"]
    by (simp add: naiveUnion_def)
qed

section \<open>Windows of a band\<close>

lemma isMatrix_iff: "isMatrix b \<longleftrightarrow> (\<forall>r\<in>set b. length r = ncols b)"
  by (simp add: isMatrix_def list_all_iff)

lemma ncols_eqI: "b \<noteq> [] \<Longrightarrow> \<forall>r\<in>set b. length r = n \<Longrightarrow> ncols b = n"
  by (cases b) (simp_all add: ncols_def)

lemma isMatrixI: "\<forall>r\<in>set b. length r = n \<Longrightarrow> isMatrix b"
  by (cases b) (simp_all add: isMatrix_def ncols_def list_all_iff)

lemma length_slice: "k + n \<le> length xs \<Longrightarrow> length (slice k n xs) = n"
  by (simp add: slice_def)

lemma nth_slice: "k + n \<le> length xs \<Longrightarrow> i < n \<Longrightarrow> slice k n xs ! i = xs ! (k + i)"
  by (simp add: slice_def)

lemma set_slice: "set (slice k n xs) \<subseteq> set xs"
  unfolding slice_def by (meson set_take_subset set_drop_subset subset_trans)

lemma length_paste: "k + length new \<le> length xs \<Longrightarrow> length (paste k xs new) = length xs"
  by (simp add: paste_def)

lemma nth_paste:
  "k + length new \<le> length xs \<Longrightarrow> i < length xs \<Longrightarrow>
   paste k xs new ! i = (if k \<le> i \<and> i < k + length new then new ! (i - k) else xs ! i)"
  by (auto simp: paste_def nth_append)

lemma slice_paste: "k + length new \<le> length xs \<Longrightarrow> slice k (length new) (paste k xs new) = new"
  by (simp add: slice_def paste_def)

lemma paste_slice: "k + n \<le> length xs \<Longrightarrow> paste k xs (slice k n xs) = xs"
  by (simp add: slice_def paste_def) (metis add.commute append_take_drop_id drop_drop)


lemma ReadAsArray_InrD:
  assumes "ReadAsArray b x y w h = Inr W"
  shows "isMatrix b" "0 \<le> x" "0 \<le> y" "0 \<le> w" "0 \<le> h"
    "x + w \<le> int (ncols b)" "y + h \<le> int (length b)"
    "W = map (slice (nat x) (nat w)) (slice (nat y) (nat h) b)"
  using assms by (auto simp: ReadAsArray_def split: if_splits)

lemma WriteArray_InrD:
  assumes "WriteArray b a x y = Inr b'"
  shows "isMatrix b" "isMatrix a" "0 \<le> x" "0 \<le> y"
    "x + int (ncols a) \<le> int (ncols b)" "y + int (length a) \<le> int (length b)"
    "b' = paste (nat y) b (map2 (paste (nat x)) (slice (nat y) (length a) b) a)"
  using assms by (auto simp: WriteArray_def split: if_splits)

lemma ReadAsArray_length:
  assumes "ReadAsArray b x y w h = Inr W"
  shows "length W = nat h"
proof -
  note d = ReadAsArray_InrD[OF assms]
  have "nat y + nat h \<le> length b" using d(3,5,7) by linarith
  then show ?thesis by (simp add: d(8) length_slice)
qed

lemma ReadAsArray_row_length:
  assumes "ReadAsArray b x y w h = Inr W" and "row \<in> set W"
  shows "length row = nat w"
proof -
  note d = ReadAsArray_InrD[OF assms(1)]
  from assms(2) obtain r where r: "r \<in> set b" and row: "row = slice (nat x) (nat w) r"
    using set_slice[of "nat y" "nat h" b] by (auto simp: d(8))
  have "length r = ncols b" using d(1) r by (simp add: isMatrix_iff)
  then have "nat x + nat w \<le> length r" using d(2,4,6) by linarith
  then show ?thesis by (simp add: row length_slice)
qed


lemma WriteArray_length:
  assumes "WriteArray b a x y = Inr b'"
  shows "length b' = length b"
proof -
  note d = WriteArray_InrD[OF assms]
  have yh: "nat y + length a \<le> length b" using d(4,6) by linarith
  then show ?thesis by (simp add: d(7) length_paste length_slice)
qed

lemma WriteArray_row:
  assumes "WriteArray b a x y = Inr b'" and "i < length b"
  shows "b' ! i = (if nat y \<le> i \<and> i < nat y + length a
                   then paste (nat x) (b ! i) (a ! (i - nat y)) else b ! i)"
proof -
  note d = WriteArray_InrD[OF assms(1)]
  have yh: "nat y + length a \<le> length b" using d(4,6) by linarith
  let ?N = "map2 (paste (nat x)) (slice (nat y) (length a) b) a"
  have len: "length ?N = length a" using yh by (simp add: length_slice)
  have "b' ! i = (if nat y \<le> i \<and> i < nat y + length ?N then ?N ! (i - nat y) else b ! i)"
    unfolding d(7) using yh assms(2) len by (intro nth_paste) simp_all
  moreover have "?N ! (i - nat y) = paste (nat x) (b ! i) (a ! (i - nat y))"
    if "nat y \<le> i" "i < nat y + length a"
    using that yh by (simp add: length_slice nth_slice)
  ultimately show ?thesis using len by auto
qed

lemma WriteArray_row_length:
  assumes "WriteArray b a x y = Inr b'" and "i < length b"
  shows "length (b' ! i) = ncols b"
proof -
  note d = WriteArray_InrD[OF assms(1)]
  have bi: "length (b ! i) = ncols b" using d(1) assms(2) by (simp add: isMatrix_iff)
  show ?thesis
  proof (cases "nat y \<le> i \<and> i < nat y + length a")
    case True
    then have "i - nat y < length a" by linarith
    then have "a ! (i - nat y) \<in> set a" by (rule nth_mem)
    then have "length (a ! (i - nat y)) = ncols a" using d(2) by (simp add: isMatrix_iff)
    then have "nat x + length (a ! (i - nat y)) \<le> length (b ! i)"
      using d(3,5) bi by linarith
    then show ?thesis using True bi by (simp add: WriteArray_row[OF assms] length_paste)
  next
    case False
    then show ?thesis using bi by (auto simp: WriteArray_row[OF assms])
  qed
qed

lemma WriteArray_isMatrix:
  assumes "WriteArray b a x y = Inr b'"
  shows "isMatrix b'" and "ncols b' = ncols b"
proof -
  have rows: "\<forall>r\<in>set b'. length r = ncols b"
    using WriteArray_row_length[OF assms] WriteArray_length[OF assms]
    by (metis in_set_conv_nth)
  then show "isMatrix b'" by (rule isMatrixI)
  show "ncols b' = ncols b"
  proof (cases "b' = []")
    case True
    then have "b = []" using WriteArray_length[OF assms] by simp
    with True show ?thesis by simp
  next
    case False
    then show ?thesis using rows by (rule ncols_eqI)
  qed
qed

lemma WriteArray_nth:
  assumes "WriteArray b a x y = Inr b'" and "i < length b" and "j < ncols b"
  shows "b' ! i ! j =
           (if nat y \<le> i \<and> i < nat y + length a \<and> nat x \<le> j \<and> j < nat x + ncols a
            then a ! (i - nat y) ! (j - nat x) else b ! i ! j)"
proof -
  note d = WriteArray_InrD[OF assms(1)]
  have bi: "length (b ! i) = ncols b" using d(1) assms(2) by (simp add: isMatrix_iff)
  show ?thesis
  proof (cases "nat y \<le> i \<and> i < nat y + length a")
    case True
    then have "i - nat y < length a" by linarith
    then have "a ! (i - nat y) \<in> set a" by (rule nth_mem)
    then have la: "length (a ! (i - nat y)) = ncols a" using d(2) by (simp add: isMatrix_iff)
    then have fit: "nat x + length (a ! (i - nat y)) \<le> length (b ! i)"
      using d(3,5) bi by linarith
    show ?thesis
      using True la assms(3) bi
      by (simp add: WriteArray_row[OF assms(1,2)] nth_paste[OF fit])
  next
    case False
    then show ?thesis by (auto simp: WriteArray_row[OF assms(1,2)])
  qed
qed


lemma Read_after_Write:
  assumes wr: "WriteArray b a x y = Inr b'"
      and rd: "ReadAsArray b x y w h = Inr W"
      and shape: "map length a = map length W"
  shows "ReadAsArray b' x y w h = Inr a"
proof -
  note dw = WriteArray_InrD[OF wr]
  note dr = ReadAsArray_InrD[OF rd]
  have la: "length a = nat h"
    using shape ReadAsArray_length[OF rd] by (metis length_map)
  have yh: "nat y + length a \<le> length b" using dw(4,6) by linarith
  let ?S = "slice (nat y) (length a) b"
  let ?N = "map2 (paste (nat x)) ?S a"
  have lenS: "length ?S = length a" using yh by (simp add: length_slice)
  have lenN: "length ?N = length a" using lenS by simp
  have b': "b' = paste (nat y) b ?N" by (rule dw(7))
  have "slice (nat y) (length ?N) (paste (nat y) b ?N) = ?N"
    using yh lenN by (intro slice_paste) simp
  then have sl: "slice (nat y) (nat h) b' = ?N" using lenN la b' by simp
  have rows: "length (a ! i) = nat w" if "i < length a" for i
  proof -
    have "length (a ! i) = map length a ! i" using that by simp
    also have "\<dots> = length (W ! i)" using that la ReadAsArray_length[OF rd] by (simp add: shape)
    also have "\<dots> = nat w"
      using that la ReadAsArray_length[OF rd] ReadAsArray_row_length[OF rd] by simp
    finally show ?thesis .
  qed
  have "map (slice (nat x) (nat w)) ?N = a"
  proof (rule nth_equalityI)
    show "length (map (slice (nat x) (nat w)) ?N) = length a" using lenN by simp
  next
    fix i assume "i < length (map (slice (nat x) (nat w)) ?N)"
    then have i: "i < length a" using lenN by simp
    have "?S ! i \<in> set b"
      using set_slice[of "nat y" "length a" b] i lenS by (metis nth_mem subsetD)
    then have "length (?S ! i) = ncols b" using dw(1) by (simp add: isMatrix_iff)
    moreover have "nat x + nat w \<le> ncols b" using dr(2,4,6) by linarith
    ultimately have fit: "nat x + length (a ! i) \<le> length (?S ! i)" using rows[OF i] by simp
    have "map (slice (nat x) (nat w)) ?N ! i = slice (nat x) (length (a ! i)) (paste (nat x) (?S ! i) (a ! i))"
      using i lenS rows[OF i] by simp
    also have "\<dots> = a ! i" using fit by (rule slice_paste)
    finally show "map (slice (nat x) (nat w)) ?N ! i = a ! i" .
  qed
  then show ?thesis
    using dr(2-7) WriteArray_isMatrix[OF wr] WriteArray_length[OF wr] sl
    by (simp add: ReadAsArray_def)
qed

lemma Write_after_Read:
  assumes rd: "ReadAsArray b x y w h = Inr W"
  shows "WriteArray b W x y = Inr b"
proof -
  note dr = ReadAsArray_InrD[OF rd]
  have lW: "length W = nat h" by (rule ReadAsArray_length[OF rd])
  have rows: "\<forall>r\<in>set W. length r = nat w" using ReadAsArray_row_length[OF rd] by blast
  have mW: "isMatrix W" using rows by (rule isMatrixI)
  have nW: "ncols W \<le> nat w"
  proof (cases "W = []")
    case True
    then show ?thesis by (simp add: ncols_def)
  next
    case False
    then show ?thesis using ncols_eqI[OF False rows] by simp
  qed
  have yh: "nat y + nat h \<le> length b" using dr(3,5,7) by linarith
  let ?S = "slice (nat y) (nat h) b"
  have lenS: "length ?S = nat h" using yh by (simp add: length_slice)
  have "map2 (paste (nat x)) ?S W = ?S"
  proof (rule nth_equalityI)
    show "length (map2 (paste (nat x)) ?S W) = length ?S" using lenS lW by simp
  next
    fix i assume "i < length (map2 (paste (nat x)) ?S W)"
    then have i: "i < nat h" using lenS lW by simp
    have "?S ! i \<in> set b"
      using set_slice[of "nat y" "nat h" b] i lenS by (metis nth_mem subsetD)
    then have "length (?S ! i) = ncols b" using dr(1) by (simp add: isMatrix_iff)
    then have fit: "nat x + nat w \<le> length (?S ! i)" using dr(2,4,6) by linarith
    have "map2 (paste (nat x)) ?S W ! i = paste (nat x) (?S ! i) (slice (nat x) (nat w) (?S ! i))"
      using i lenS lW by (simp add: dr(8))
    also have "\<dots> = ?S ! i" using fit by (rule paste_slice)
    finally show "map2 (paste (nat x)) ?S W ! i = ?S ! i" .
  qed
  moreover have "paste (nat y) b ?S = b" using yh by (rule paste_slice)
  moreover have "x + int (ncols W) \<le> int (ncols b)" using nW dr(4,6) by linarith
  moreover have "y + int (length W) \<le> int (length b)" using lW dr(5,7) by linarith
  ultimately show ?thesis
    using dr(1-3) mW lW by (simp add: WriteArray_def)
qed

lemma map_length_overlay:
  "map length mMatrix = map length dMatrix \<Longrightarrow>
   map length (overlay be nd mMatrix dMatrix) = map length mMatrix"
proof (induction mMatrix arbitrary: dMatrix)
  case Nil
  then show ?case by (simp add: overlay_def)
next
  case (Cons m ms)
  then obtain d ds where d: "dMatrix = d # ds" by (cases dMatrix) auto
  with Cons show ?case by (simp add: overlay_def)
qed

lemma overlay_nth:
  assumes "map length mMatrix = map length dMatrix"
      and "i < length mMatrix" and "j < length (mMatrix ! i)"
  shows "overlay be nd mMatrix dMatrix ! i ! j =
           (if differs be (dMatrix ! i ! j) nd then dMatrix ! i ! j else mMatrix ! i ! j)"
proof -
  have len: "length dMatrix = length mMatrix" using assms(1) by (metis length_map)
  have "length (dMatrix ! i) = map length dMatrix ! i" using assms(2) len by simp
  moreover have "length (mMatrix ! i) = map length mMatrix ! i" using assms(2) by simp
  ultimately have row: "length (dMatrix ! i) = length (mMatrix ! i)"
    using assms(1) by simp
  show ?thesis using assms(2,3) len row by (simp add: overlay_def)
qed

lemma overlay_idem:
  assumes "map length mMatrix = map length dMatrix"
  shows "overlay be nd (overlay be nd mMatrix dMatrix) dMatrix = overlay be nd mMatrix dMatrix"
proof -
  let ?o = "overlay be nd mMatrix dMatrix"
  have ml: "map length ?o = map length mMatrix" by (rule map_length_overlay[OF assms])
  then have ml2: "map length ?o = map length dMatrix" using assms by simp
  have ml3: "map length (overlay be nd ?o dMatrix) = map length ?o"
    by (rule map_length_overlay[OF ml2])
  have len: "length ?o = length mMatrix" using ml by (metis length_map)
  show ?thesis
  proof (rule nth_equalityI)
    show "length (overlay be nd ?o dMatrix) = length ?o" using ml3 by (metis length_map)
  next
    fix i assume "i < length (overlay be nd ?o dMatrix)"
    then have i: "i < length ?o" using ml3 by (metis length_map)
    have li: "length (overlay be nd ?o dMatrix ! i) = length (?o ! i)"
      using i ml3 by (metis length_map nth_map)
    have lm: "length (?o ! i) = length (mMatrix ! i)"
      using i len ml by (metis nth_map)
    show "overlay be nd ?o dMatrix ! i = ?o ! i"
    proof (rule nth_equalityI)
      show "length (overlay be nd ?o dMatrix ! i) = length (?o ! i)" by (rule li)
    next
      fix j assume "j < length (overlay be nd ?o dMatrix ! i)"
      then have j: "j < length (?o ! i)" using li by simp
      have "overlay be nd ?o dMatrix ! i ! j
              = (if differs be (dMatrix ! i ! j) nd then dMatrix ! i ! j else ?o ! i ! j)"
        using overlay_nth[OF ml2 i j] .
      moreover have "?o ! i ! j
              = (if differs be (dMatrix ! i ! j) nd then dMatrix ! i ! j else mMatrix ! i ! j)"
        using overlay_nth[OF assms, of i j be nd] i j len lm by simp
      ultimately show "overlay be nd ?o dMatrix ! i ! j = ?o ! i ! j" by simp
    qed
  qed
qed

section \<open>Merging a tile\<close>

lemma applyTile_InrD:
  assumes "applyTile be cf m dInfo dBand = Inr m'"
  obtains idx mMatrix writeMatrix b where
    "tileWindow be (info m) dInfo = Inr idx"
    "ReadAsArray (band m) (xStart idx) (yStart idx) (xWin idx) (yWin idx) = Inr mMatrix"
    "mergeMatrix be cf mMatrix (info m) (normalised dInfo dBand) dInfo = Inr writeMatrix"
    "WriteArray (band m) writeMatrix (xStart idx) (yStart idx) = Inr b"
    "m' = m\<lparr>band := b\<rparr>"
  using assms by (auto simp: applyTile_def Let_def split: sum.splits)

lemma applyTile_info: "applyTile be cf m dInfo dBand = Inr m' \<Longrightarrow> info m' = info m"
  by (erule applyTile_InrD) simp

lemma Read_back:
  assumes wr: "WriteArray b a x y = Inr b'"
  shows "ReadAsArray b' x y (int (ncols a)) (int (length a)) = Inr a"
proof -
  note dw = WriteArray_InrD[OF wr]
  let ?W = "map (slice (nat x) (ncols a)) (slice (nat y) (length a) b)"
  have rd: "ReadAsArray b x y (int (ncols a)) (int (length a)) = Inr ?W"
    using dw by (simp add: ReadAsArray_def)
  have yh: "nat y + length a \<le> length b" using dw(4,6) by linarith
  have "map length a = map length ?W"
  proof (rule nth_equalityI)
    show "length (map length a) = length (map length ?W)" using yh by (simp add: length_slice)
  next
    fix i assume "i < length (map length a)"
    then have i: "i < length a" by simp
    then have "a ! i \<in> set a" by (rule nth_mem)
    then have la: "length (a ! i) = ncols a" using dw(2) by (simp add: isMatrix_iff)
    have "?W ! i \<in> set ?W" using i yh by (simp add: length_slice)
    then have "length (?W ! i) = nat (int (ncols a))"
      by (rule ReadAsArray_row_length[OF rd])
    then show "map length a ! i = map length ?W ! i" using i la yh by (simp add: length_slice)
  qed
  then show ?thesis by (rule Read_after_Write[OF wr rd])
qed

lemma sparse_overlay_step:
  assumes nd: "noData dInfo = Some nd"
      and idx: "tileWindow be (info m) dInfo = Inr idx"
      and rd: "ReadAsArray (band m) (xStart idx) (yStart idx) (xWin idx) (yWin idx) = Inr mMatrix"
      and ap: "applyTile be None m dInfo dBand = Inr m'"
  shows "map length mMatrix = map length (normalised dInfo dBand)"
    and "mergeMatrix be None mMatrix (info m) (normalised dInfo dBand) dInfo
           = Inr (overlay be nd mMatrix (normalised dInfo dBand))"
    and "WriteArray (band m) (overlay be nd mMatrix (normalised dInfo dBand)) (xStart idx) (yStart idx)
           = Inr (band m')"
    and "ReadAsArray (band m') (xStart idx) (yStart idx) (xWin idx) (yWin idx)
           = Inr (overlay be nd mMatrix (normalised dInfo dBand))"
    and "info m' = info m"
proof -
  from ap obtain wm b where
    mg: "mergeMatrix be None mMatrix (info m) (normalised dInfo dBand) dInfo = Inr wm"
    and wr: "WriteArray (band m) wm (xStart idx) (yStart idx) = Inr b"
    and m': "m' = m\<lparr>band := b\<rparr>"
    using idx rd by (auto simp: applyTile_def Let_def split: sum.splits)
  from mg nd show shape: "map length mMatrix = map length (normalised dInfo dBand)"
    by (simp add: mergeMatrix_def split: if_splits)
  with mg nd have wm: "wm = overlay be nd mMatrix (normalised dInfo dBand)"
    by (simp add: mergeMatrix_def)
  show "mergeMatrix be None mMatrix (info m) (normalised dInfo dBand) dInfo
           = Inr (overlay be nd mMatrix (normalised dInfo dBand))"
    using mg wm by simp
  show w2: "WriteArray (band m) (overlay be nd mMatrix (normalised dInfo dBand)) (xStart idx) (yStart idx)
           = Inr (band m')"
    using wr wm m' by simp
  have "map length (overlay be nd mMatrix (normalised dInfo dBand)) = map length mMatrix"
    using shape by (rule map_length_overlay)
  then show "ReadAsArray (band m') (xStart idx) (yStart idx) (xWin idx) (yWin idx)
           = Inr (overlay be nd mMatrix (normalised dInfo dBand))"
    by (rule Read_after_Write[OF w2 rd])
  show "info m' = info m" using m' by simp
qed

lemma applyTile_idem:
  assumes nd: "noData dInfo = Some nd"
      and ap: "applyTile be None m dInfo dBand = Inr m1"
  shows "applyTile be None m1 dInfo dBand = Inr m1"
proof -
  from ap obtain idx mMatrix where
    idx: "tileWindow be (info m) dInfo = Inr idx"
    and rd: "ReadAsArray (band m) (xStart idx) (yStart idx) (xWin idx) (yWin idx) = Inr mMatrix"
    by (rule applyTile_InrD)
  let ?d = "normalised dInfo dBand"
  let ?o = "overlay be nd mMatrix ?d"
  note s = sparse_overlay_step[OF nd idx rd ap]
  have shape: "map length ?o = map length ?d"
    using map_length_overlay[OF s(1)] s(1) by simp
  have mg: "mergeMatrix be None ?o (info m1) ?d dInfo = Inr ?o"
    using nd shape overlay_idem[OF s(1)] by (simp add: mergeMatrix_def)
  have wr: "WriteArray (band m1) ?o (xStart idx) (yStart idx) = Inr (band m1)"
    using s(4) by (rule Write_after_Read)
  show ?thesis
    using idx s(4,5) mg wr by (simp add: applyTile_def Let_def)
qed


lemma dense_step:
  assumes nd: "noData dInfo = None"
      and ap: "applyTile be None m dInfo dBand = Inr m'"
  shows "\<exists>idx. tileWindow be (info m') dInfo = Inr idx
           \<and> tileWindow be (info m) dInfo = Inr idx
           \<and> ReadAsArray (band m') (xStart idx) (yStart idx)
                (int (ncols (normalised dInfo dBand))) (int (length (normalised dInfo dBand)))
               = Inr (normalised dInfo dBand)"
proof -
  from ap obtain idx mMatrix wm b where
    idx: "tileWindow be (info m) dInfo = Inr idx"
    and mg: "mergeMatrix be None mMatrix (info m) (normalised dInfo dBand) dInfo = Inr wm"
    and wr: "WriteArray (band m) wm (xStart idx) (yStart idx) = Inr b"
    and m': "m' = m\<lparr>band := b\<rparr>"
    by (rule applyTile_InrD)
  from mg nd have wm: "wm = normalised dInfo dBand" by (simp add: mergeMatrix_def)
  have "ReadAsArray b (xStart idx) (yStart idx) (int (ncols wm)) (int (length wm)) = Inr wm"
    using wr by (rule Read_back)
  then show ?thesis using idx m' wm by simp
qed

lemma addDatasets_last:
  "addDatasets be cf master w m i (xs @ [(dInfo, d)]) = (w', Inr m') \<Longrightarrow>
   \<exists>m1 r fs. loadRaster fs d = Inr r \<and> applyTile be cf m1 dInfo (band r) = Inr m'
      \<and> (\<forall>p. p \<noteq> master \<longrightarrow> fs p = files w p)
      \<and> files w' = fs(master \<mapsto> RasterFile m')"
proof (induction xs arbitrary: w m i)
  case Nil
  then obtain r where
    ld: "loadRaster (files w) d = Inr r"
    and ap: "applyTile be cf m dInfo (band r) = Inr m'"
    and w': "files w' = (files w)(master \<mapsto> RasterFile m')"
    by (auto simp: Let_def logged_def split: sum.splits)
  show ?case
    by (rule exI[of _ m], rule exI[of _ r], rule exI[of _ "files w"]) (simp add: ld ap w')
next
  case (Cons x xs)
  obtain xi xd where x: "x = (xi, xd)" by (cases x)
  let ?w1 = "logged (TileMerge i) w"
  from Cons.prems obtain m2 where
    rest: "addDatasets be cf master
                 (?w1\<lparr>files := (files ?w1)(master \<mapsto> RasterFile m2)\<rparr>)
                 m2 (Suc i) (xs @ [(dInfo, d)]) = (w', Inr m')"
    by (auto simp: x Let_def split: sum.splits)
  from Cons.IH[OF rest] obtain m1 r' fs where
    "loadRaster fs d = Inr r'" "applyTile be cf m1 dInfo (band r') = Inr m'"
    "\<forall>p. p \<noteq> master \<longrightarrow> fs p = files (?w1\<lparr>files := (files ?w1)(master \<mapsto> RasterFile m2)\<rparr>) p"
    "files w' = fs(master \<mapsto> RasterFile m')"
    by blast
  then show ?case by (auto simp: logged_def)
qed

lemma combine_NoneD:
  assumes "combineSimilarRasters be w master datasets cf ndv = (w', None)"
  obtains w1 ds infoSet w2 m0 w3 m' where
    "readDatasets be w datasets = (w1, Inr (ds, infoSet))"
    "openMaster be w1 master infoSet ndv = (w2, Inr m0)"
    "addDatasets be cf master w2 m0 0 (zip infoSet ds) = (w3, Inr m')"
    "w' = logged (StatsComputed master) w3"
  using assms
  by (auto simp: combineSimilarRasters_def split: sum.splits prod.splits)

lemma readDatasets_InrD:
  assumes "readDatasets be w datasets = (w1, Inr (ds, infoSet))"
  shows "ds = snd (listDatasets be w datasets)"
    and "ds \<noteq> []"
    and "rasterInfos (fst (listDatasets be w datasets)) 0 ds = (w1, Inr infoSet)"
    and "infoSet \<noteq> []"
    and "checkSimilar be (hd infoSet) (tl infoSet) = None"
  using assms
  by (auto simp: readDatasets_def split: sum.splits prod.splits list.splits option.splits if_splits)

lemma rasterInfos_two:
  "rasterInfos w i [Dataset A, Dataset B]
     = (logged (InfoRead (Suc i)) (logged (InfoRead i) w), Inr [info A, info B])"
  by (simp add: Let_def loadRaster_def)

lemma last_tile_shown:
  assumes run: "combineSimilarRasters be w master (Iterable [Dataset A, Dataset B]) None ndv = (w', None)"
      and nd: "noData (info B) = None"
  shows "showsTile be w' master B"
proof -
  from run obtain w1 ds infoSet w2 m0 w3 m' where
    rd: "readDatasets be w (Iterable [Dataset A, Dataset B]) = (w1, Inr (ds, infoSet))"
    and loop: "addDatasets be None master w2 m0 0 (zip infoSet ds) = (w3, Inr m')"
    and w': "w' = logged (StatsComputed master) w3"
    by (rule combine_NoneD)
  note d = readDatasets_InrD[OF rd]
  have ds: "ds = [Dataset A, Dataset B]" using d(1) by (simp add: listDatasets_def)
  have "infoSet = [info A, info B]" using d(3) unfolding ds rasterInfos_two by simp
  then have z: "zip infoSet ds = [(info A, Dataset A)] @ [(info B, Dataset B)]"
    using ds by simp
  from addDatasets_last[OF loop[unfolded z]] obtain m1 r fs where
    ld: "loadRaster fs (Dataset B) = Inr r"
    and ap: "applyTile be None m1 (info B) (band r) = Inr m'"
    and fs: "files w3 = fs(master \<mapsto> RasterFile m')"
    by blast
  from ld have r: "r = B" by (simp add: loadRaster_def)
  from dense_step[OF nd ap[unfolded r]] obtain idx where
    "tileWindow be (info m') (info B) = Inr idx"
    "ReadAsArray (band m') (xStart idx) (yStart idx)
       (int (ncols (normalised (info B) (band B)))) (int (length (normalised (info B) (band B))))
      = Inr (normalised (info B) (band B))"
    by blast
  then show ?thesis using fs w' by (simp add: showsTile_def logged_def)
qed

section \<open>Evaluating the model on concrete inputs\<close>

lemma replicate_numeral: "replicate (numeral k) x = x # replicate (pred_numeral k) x"
  by (simp add: numeral_eq_Suc)

lemmas run_defs =
  combineSimilarRasters_def readDatasets_def listDatasets_def loadRaster_def Let_def
  logged_def openMaster_def createRaster_def chooseNoData_def applyTile_def tileWindow_def
  findWithin_def onGrid_def bounds_def ReadAsArray_def WriteArray_def isMatrix_def ncols_def
  slice_def paste_def mergeMatrix_def normalised_def overlay_def showsTile_def
  differs_def sameElement_def pySetAdd_def pySet_def replicate_numeral

lemmas ex_defs =
  exBackend_def exWorld_def exWorldM_def exA_def exB_def exFloat_def exInfo_def exMaster_def
  exSparse_def exSparseL_def exNew_def



section \<open>The merge policy\<close>




lemma last_tile_shown_snd:
  assumes "snd (combineSimilarRasters be w master (Iterable [Dataset A, Dataset B]) None ndv) = None"
      and "noData (info B) = None"
  shows "showsTile be (fst (combineSimilarRasters be w master (Iterable [Dataset A, Dataset B]) None ndv)) master B"
proof -
  let ?r = "combineSimilarRasters be w master (Iterable [Dataset A, Dataset B]) None ndv"
  have "?r = (fst ?r, None)" using assms(1) by (simp add: prod_eq_iff)
  then show ?thesis using assms(2) by (rule last_tile_shown)
qed

text \<open>
  C6. A tile that declares no nodata value, merged with no \<^verbatim>\<open>combiningFunc\<close>, is written
  as it is, whatever the master window holds: after a successful merge the window of
  the tile's footprint read back from the master is the tile's matrix. So when two such
  tiles are combined in the order A, B and the call returns, the master shows B over
  the whole of B's footprint, the overlap with A included; in the order B, A it shows A
  over the whole of A's footprint.
\<close>

theorem dense_tile_last_write_wins:
  assumes "noData (info A) = None" and "noData (info B) = None"
  shows "mergeMatrix be None mMatrix mInfo (normalised (info B) (band B)) (info B)
           = Inr (normalised (info B) (band B))
       \<and> (applyTile be None m (info B) (band B) = Inr m' \<longrightarrow>
            (\<exists>idx. tileWindow be (info m) (info B) = Inr idx
               \<and> ReadAsArray (band m') (xStart idx) (yStart idx)
                    (int (ncols (normalised (info B) (band B))))
                    (int (length (normalised (info B) (band B))))
                  = Inr (normalised (info B) (band B))))
       \<and> (snd (combineSimilarRasters be w master (Iterable [Dataset A, Dataset B]) None ndv) = None
            \<longrightarrow> showsTile be
                  (fst (combineSimilarRasters be w master (Iterable [Dataset A, Dataset B]) None ndv))
                  master B)
       \<and> (snd (combineSimilarRasters be w master (Iterable [Dataset B, Dataset A]) None ndv) = None
            \<longrightarrow> showsTile be
                  (fst (combineSimilarRasters be w master (Iterable [Dataset B, Dataset A]) None ndv))
                  master A)"
proof -
  have "mergeMatrix be None mMatrix mInfo (normalised (info B) (band B)) (info B)
           = Inr (normalised (info B) (band B))"
    using assms(2) by (simp add: mergeMatrix_def)
  moreover have "\<exists>idx. tileWindow be (info m) (info B) = Inr idx
               \<and> ReadAsArray (band m') (xStart idx) (yStart idx)
                    (int (ncols (normalised (info B) (band B))))
                    (int (length (normalised (info B) (band B))))
                  = Inr (normalised (info B) (band B))"
    if "applyTile be None m (info B) (band B) = Inr m'"
    using dense_step[OF assms(2) that] by blast
  ultimately show ?thesis
    using assms last_tile_shown_snd[of be w master A B ndv]
      last_tile_shown_snd[of be w master B A ndv]
    by blast
qed

theorem dense_tile_last_write_wins_witness:
  "noData (info exA) = None \<and> noData (info exB) = None
   \<and> snd (combineSimilarRasters exBackend exWorld ''m.tif''
            (Iterable [Dataset exA, Dataset exB]) None None) = None
   \<and> files (fst (combineSimilarRasters exBackend exWorld ''m.tif''
            (Iterable [Dataset exA, Dataset exB]) None None)) ''m.tif''
       = Some (RasterFile \<lparr>info = exInfo 0 3 None, band = [[1, 5, 6], [3, 7, 8]]\<rparr>)
   \<and> showsTile exBackend (fst (combineSimilarRasters exBackend exWorld ''m.tif''
            (Iterable [Dataset exA, Dataset exB]) None None)) ''m.tif'' exB
   \<and> snd (combineSimilarRasters exBackend exWorld ''m.tif''
            (Iterable [Dataset exB, Dataset exA]) None None) = None
   \<and> files (fst (combineSimilarRasters exBackend exWorld ''m.tif''
            (Iterable [Dataset exB, Dataset exA]) None None)) ''m.tif''
       = Some (RasterFile \<lparr>info = exInfo 0 3 None, band = [[1, 2, 6], [3, 4, 8]]\<rparr>)
   \<and> showsTile exBackend (fst (combineSimilarRasters exBackend exWorld ''m.tif''
            (Iterable [Dataset exB, Dataset exA]) None None)) ''m.tif'' exA"
proof -
  have a: "noData (info exA) = None" by (simp add: run_defs ex_defs)
  have b: "noData (info exB) = None" by (simp add: run_defs ex_defs)
  have ab: "snd (combineSimilarRasters exBackend exWorld ''m.tif''
            (Iterable [Dataset exA, Dataset exB]) None None) = None" by (simp add: run_defs ex_defs)
  have ba: "snd (combineSimilarRasters exBackend exWorld ''m.tif''
            (Iterable [Dataset exB, Dataset exA]) None None) = None" by (simp add: run_defs ex_defs)
  have fab: "files (fst (combineSimilarRasters exBackend exWorld ''m.tif''
            (Iterable [Dataset exA, Dataset exB]) None None)) ''m.tif''
       = Some (RasterFile \<lparr>info = exInfo 0 3 None, band = [[1, 5, 6], [3, 7, 8]]\<rparr>)"
    by (simp add: run_defs ex_defs)
  have fba: "files (fst (combineSimilarRasters exBackend exWorld ''m.tif''
            (Iterable [Dataset exB, Dataset exA]) None None)) ''m.tif''
       = Some (RasterFile \<lparr>info = exInfo 0 3 None, band = [[1, 2, 6], [3, 4, 8]]\<rparr>)"
    by (simp add: run_defs ex_defs)
  show ?thesis
    using a b ab ba fab fba
      dense_tile_last_write_wins[OF a b, of exBackend _ _ _ _ exWorld "''m.tif''" None]
    by simp
qed

text \<open>
  C7. Merging the same nodata-carrying tile a second time, with no \<^verbatim>\<open>combiningFunc\<close>,
  changes nothing: the second merge succeeds and returns the master the first merge
  returned, every pixel of it. The loop over a list that holds the tile twice ends with
  the same master, and the same files, as over the list that holds it once.
\<close>

theorem sparse_overlay_idempotent:
  assumes "noData dInfo = Some nd"
  shows "(applyTile be None m dInfo dBand = Inr m1 \<longrightarrow> applyTile be None m1 dInfo dBand = Inr m1)
       \<and> (noData (info t) = Some nd \<longrightarrow>
            snd (addDatasets be None master w m i [(info t, Dataset t), (info t, Dataset t)])
              = snd (addDatasets be None master w m i [(info t, Dataset t)])
          \<and> files (fst (addDatasets be None master w m i [(info t, Dataset t), (info t, Dataset t)]))
              = files (fst (addDatasets be None master w m i [(info t, Dataset t)])))"
proof -
  have twice: "snd (addDatasets be None master w m i [(info t, Dataset t), (info t, Dataset t)])
              = snd (addDatasets be None master w m i [(info t, Dataset t)])
          \<and> files (fst (addDatasets be None master w m i [(info t, Dataset t), (info t, Dataset t)]))
              = files (fst (addDatasets be None master w m i [(info t, Dataset t)]))"
    if nd: "noData (info t) = Some nd"
  proof (cases "applyTile be None m (info t) (band t)")
    case (Inl e)
    then show ?thesis by (simp add: Let_def loadRaster_def)
  next
    case (Inr m1)
    then show ?thesis
      using applyTile_idem[OF nd Inr]
      by (simp add: Let_def loadRaster_def logged_def)
  qed
  show ?thesis using applyTile_idem[OF assms] twice by blast
qed

theorem sparse_overlay_idempotent_witness:
  "noData (info exSparse) = Some (- 1)
   \<and> applyTile exBackend None exMaster (info exSparse) (band exSparse)
        = Inr (exMaster\<lparr>band := [[10, 11, 9], [13, 9, 15]]\<rparr>)
   \<and> applyTile exBackend None (exMaster\<lparr>band := [[10, 11, 9], [13, 9, 15]]\<rparr>)
        (info exSparse) (band exSparse)
        = Inr (exMaster\<lparr>band := [[10, 11, 9], [13, 9, 15]]\<rparr>)
   \<and> snd (addDatasets exBackend None ''m.tif'' exWorld exMaster 0
            [(info exSparse, Dataset exSparse), (info exSparse, Dataset exSparse)])
        = Inr (exMaster\<lparr>band := [[10, 11, 9], [13, 9, 15]]\<rparr>)"
proof -
  have h1: "noData (info exSparse) = Some (- 1)" by (simp add: run_defs ex_defs)
  have h2: "applyTile exBackend None exMaster (info exSparse) (band exSparse)
        = Inr (exMaster\<lparr>band := [[10, 11, 9], [13, 9, 15]]\<rparr>)" by (simp add: run_defs ex_defs)
  have h3: "snd (addDatasets exBackend None ''m.tif'' exWorld exMaster 0
            [(info exSparse, Dataset exSparse)])
        = Inr (exMaster\<lparr>band := [[10, 11, 9], [13, 9, 15]]\<rparr>)" by (simp add: run_defs ex_defs)
  show ?thesis
    using h1 h2 h3
      sparse_overlay_idempotent[OF h1, of exBackend exMaster "band exSparse" _ exSparse
        "''m.tif''" exWorld 0]
    by simp
qed


section \<open>Validation\<close>

lemma rasterInfos_world:
  "rasterInfos w i ds = (w', r) \<Longrightarrow>
   files w' = files w \<and> (\<exists>evs. events w' = events w @ evs \<and> list_all readsInput evs)"
proof (induction ds arbitrary: w i w' r)
  case Nil
  then show ?case by simp
next
  case (Cons d ds)
  let ?w1 = "logged (InfoRead i) w"
  show ?case
  proof (cases "loadRaster (files ?w1) d")
    case (Inl e)
    with Cons.prems have "w' = ?w1" by (simp add: Let_def)
    then show ?thesis by (simp add: logged_def)
  next
    case (Inr x)
    obtain w2 r2 where rec: "rasterInfos ?w1 (Suc i) ds = (w2, r2)" by (cases "rasterInfos ?w1 (Suc i) ds")
    with Cons.prems Inr have "w' = w2" by (auto simp: Let_def split: sum.splits)
    with Cons.IH[OF rec] show ?thesis by (auto simp: logged_def)
  qed
qed

lemma checkSimilar_None_iff:
  "checkSimilar be first rest = None \<longleftrightarrow>
   (\<forall>i\<in>set rest. IsSame be (srs i) (srs first) \<and> dx i = dx first \<and> dy i = dy first
       \<and> dtype i = dtype first)"
  by (induction rest) auto

lemma checkSimilar_Some:
  "checkSimilar be first rest = Some e \<Longrightarrow>
     (e = GeoKitError ''SRS does not match in datasets''
        \<and> (\<exists>i\<in>set rest. \<not> IsSame be (srs i) (srs first)))
   \<or> (e = GeoKitError ''Resolution does not match in datasets''
        \<and> (\<exists>i\<in>set rest. dx i \<noteq> dx first \<or> dy i \<noteq> dy first))
   \<or> (e = GeoKitError ''Datatype does not match in datasets''
        \<and> (\<exists>i\<in>set rest. dtype i \<noteq> dtype first))"
  by (induction rest) (auto split: if_splits)

text \<open>
  C3. With no dataset at all the call raises \<^verbatim>\<open>GeoKitError("No datasets given")\<close> and the
  world is as it was: no file is touched and no event is logged. When the datasets are
  given as a pattern that matches nothing, the glob is the only event and the files are
  as they were.
\<close>

theorem no_datasets_no_io:
  "combineSimilarRasters be w master (Iterable []) combiningFunc noDataValue
     = (w, Some (GeoKitError ''No datasets given''))
   \<and> (glob be p = [] \<longrightarrow>
        combineSimilarRasters be w master (Pattern p) combiningFunc noDataValue
          = (logged (Globbed p) w, Some (GeoKitError ''No datasets given''))
        \<and> files (logged (Globbed p) w) = files w)"
  by (simp add: combineSimilarRasters_def readDatasets_def listDatasets_def logged_def)

theorem no_datasets_no_io_witness:
  "glob (exBackend\<lparr>glob := (\<lambda>p. [])\<rparr>) ''*.tif'' = []
   \<and> combineSimilarRasters (exBackend\<lparr>glob := (\<lambda>p. [])\<rparr>) exWorld ''m.tif'' (Pattern ''*.tif'') None None
       = (logged (Globbed ''*.tif'') exWorld, Some (GeoKitError ''No datasets given''))
   \<and> files (logged (Globbed ''*.tif'') exWorld) ''m.tif'' = None
   \<and> combineSimilarRasters exBackend exWorld ''m.tif'' (Iterable []) None None
       = (exWorld, Some (GeoKitError ''No datasets given''))"
proof -
  have g: "glob (exBackend\<lparr>glob := (\<lambda>p. [])\<rparr>) ''*.tif'' = []" by simp
  have f: "files (logged (Globbed ''*.tif'') exWorld) ''m.tif'' = None"
    by (simp add: logged_def exWorld_def)
  show ?thesis
    using g f
      no_datasets_no_io[of "exBackend\<lparr>glob := (\<lambda>p. [])\<rparr>" exWorld "''m.tif''" None None "''*.tif''"]
      no_datasets_no_io[of exBackend exWorld "''m.tif''" None None "''*.tif''"]
    by simp
qed

text \<open>
  C2. When the datasets can all be read and some tile after the first disagrees with
  the first on the spatial reference, the pixel width or height, or the datatype, the
  call raises a \<^verbatim>\<open>GeoKitError\<close> whose message names the SRS, the resolution or the
  datatype, and a tile does disagree on the field it names. The files are as they were
  before the call, and the only events are the glob and the \<^verbatim>\<open>rasterInfo\<close> calls: the
  master was not tested, created, opened or written.
\<close>

theorem schema_mismatch_before_master:
  assumes infos: "rasterInfos (fst (listDatasets be w datasets)) 0 (snd (listDatasets be w datasets))
                    = (w1, Inr (first # others))"
      and bad: "list_ex (mismatch be first) others"
  shows "\<exists>msg evs.
           combineSimilarRasters be w master datasets combiningFunc noDataValue
             = (w1, Some (GeoKitError msg))
         \<and> (msg = ''SRS does not match in datasets''
               \<and> list_ex (\<lambda>i. \<not> IsSame be (srs i) (srs first)) others
            \<or> msg = ''Resolution does not match in datasets''
               \<and> list_ex (\<lambda>i. dx i \<noteq> dx first \<or> dy i \<noteq> dy first) others
            \<or> msg = ''Datatype does not match in datasets''
               \<and> list_ex (\<lambda>i. dtype i \<noteq> dtype first) others)
         \<and> files w1 = files w
         \<and> events w1 = events w @ evs \<and> list_all readsInput evs"
proof -
  obtain w0 ds where ld: "listDatasets be w datasets = (w0, ds)" by (cases "listDatasets be w datasets")
  have w0: "files w0 = files w \<and> (\<exists>evs. events w0 = events w @ evs \<and> list_all readsInput evs)"
    using ld by (auto simp: listDatasets_def logged_def split: datasets.splits)
  from infos ld have ri: "rasterInfos w0 0 ds = (w1, Inr (first # others))" by simp
  then have ne: "ds \<noteq> []" by (cases ds) auto
  from rasterInfos_world[OF ri] w0
  have w1: "files w1 = files w" and "\<exists>evs. events w1 = events w @ evs \<and> list_all readsInput evs"
    by auto
  then obtain evs where evs: "events w1 = events w @ evs" "list_all readsInput evs" by blast
  from bad have "checkSimilar be first others \<noteq> None"
    by (auto simp: checkSimilar_None_iff list_ex_iff mismatch_def)
  then obtain e where e: "checkSimilar be first others = Some e" by blast
  have run: "combineSimilarRasters be w master datasets combiningFunc noDataValue = (w1, Some e)"
    using ld ri ne e by (simp add: combineSimilarRasters_def readDatasets_def)
  from checkSimilar_Some[OF e] obtain msg where
    "e = GeoKitError msg"
    "msg = ''SRS does not match in datasets''
               \<and> list_ex (\<lambda>i. \<not> IsSame be (srs i) (srs first)) others
            \<or> msg = ''Resolution does not match in datasets''
               \<and> list_ex (\<lambda>i. dx i \<noteq> dx first \<or> dy i \<noteq> dy first) others
            \<or> msg = ''Datatype does not match in datasets''
               \<and> list_ex (\<lambda>i. dtype i \<noteq> dtype first) others"
    by (auto simp: list_ex_iff)
  with run w1 evs show ?thesis by blast
qed

theorem schema_mismatch_before_master_witness:
  "rasterInfos (fst (listDatasets exBackend exWorldM (Iterable [Dataset exA, Dataset exFloat]))) 0
      (snd (listDatasets exBackend exWorldM (Iterable [Dataset exA, Dataset exFloat])))
     = (exWorldM\<lparr>events := [InfoRead 0, InfoRead 1]\<rparr>, Inr [info exA, info exFloat])
   \<and> list_ex (mismatch exBackend (info exA)) [info exFloat]
   \<and> combineSimilarRasters exBackend exWorldM ''m.tif'' (Iterable [Dataset exA, Dataset exFloat])
        None None
       = (exWorldM\<lparr>events := [InfoRead 0, InfoRead 1]\<rparr>,
          Some (GeoKitError ''Datatype does not match in datasets''))
   \<and> files (exWorldM\<lparr>events := [InfoRead 0, InfoRead 1]\<rparr>) = files exWorldM"
proof -
  have h1: "rasterInfos (fst (listDatasets exBackend exWorldM (Iterable [Dataset exA, Dataset exFloat]))) 0
      (snd (listDatasets exBackend exWorldM (Iterable [Dataset exA, Dataset exFloat])))
     = (exWorldM\<lparr>events := [InfoRead 0, InfoRead 1]\<rparr>, Inr [info exA, info exFloat])"
    by (simp add: listDatasets_def loadRaster_def Let_def logged_def exWorldM_def)
  have h2: "list_ex (mismatch exBackend (info exA)) [info exFloat]"
    by (simp add: mismatch_def exA_def exFloat_def exInfo_def)
  have d: "dtype (info exFloat) \<noteq> dtype (info exA)"
    by (simp add: exA_def exFloat_def exInfo_def)
  have s: "IsSame exBackend (srs (info exFloat)) (srs (info exA))"
      "dx (info exFloat) = dx (info exA)" "dy (info exFloat) = dy (info exA)"
    by (simp_all add: exA_def exFloat_def exInfo_def exBackend_def)
  from schema_mismatch_before_master[OF h1 h2, of "''m.tif''" None None]
  have "combineSimilarRasters exBackend exWorldM ''m.tif'' (Iterable [Dataset exA, Dataset exFloat])
        None None
       = (exWorldM\<lparr>events := [InfoRead 0, InfoRead 1]\<rparr>,
          Some (GeoKitError ''Datatype does not match in datasets''))"
    using s by auto
  then show ?thesis using h1 h2 by simp
qed

text \<open>
  C10. A string is expanded with \<^verbatim>\<open>glob\<close> and the matches are sorted: the call behaves
  as the call on the sorted list of paths, after the glob. The sorted list is ascending
  and has the matches of the glob, each as often. So the tiles are merged in ascending
  order of their paths, and where two dense tiles overlap the one with the greater path
  is the one the master shows.
\<close>

theorem pattern_sorted_glob:
  "combineSimilarRasters be w master (Pattern p) combiningFunc noDataValue
     = combineSimilarRasters be (logged (Globbed p) w) master
         (Iterable (map Path (sort (glob be p)))) combiningFunc noDataValue
   \<and> sorted (sort (glob be p))
   \<and> mset (sort (glob be p)) = mset (glob be p)"
  by (simp add: combineSimilarRasters_def readDatasets_def listDatasets_def)

theorem pattern_sorted_glob_witness:
  "glob exBackend ''*.tif'' = [''b.tif'', ''a.tif'']
   \<and> sort (glob exBackend ''*.tif'') = [''a.tif'', ''b.tif'']
   \<and> combineSimilarRasters exBackend exWorld ''m.tif'' (Pattern ''*.tif'') None None
       = combineSimilarRasters exBackend (logged (Globbed ''*.tif'') exWorld) ''m.tif''
           (Iterable [Path ''a.tif'', Path ''b.tif'']) None None
   \<and> files (fst (combineSimilarRasters exBackend exWorld ''m.tif'' (Pattern ''*.tif'') None None))
         ''m.tif''
       = Some (RasterFile \<lparr>info = exInfo 0 3 None, band = [[1, 5, 6], [3, 7, 8]]\<rparr>)"
proof -
  have g: "glob exBackend ''*.tif'' = [''b.tif'', ''a.tif'']" by (simp add: exBackend_def)
  have s: "sort (glob exBackend ''*.tif'') = [''a.tif'', ''b.tif'']" by (simp add: g)
  have f: "files (fst (combineSimilarRasters exBackend (logged (Globbed ''*.tif'') exWorld) ''m.tif''
                         (Iterable [Path ''a.tif'', Path ''b.tif'']) None None)) ''m.tif''
       = Some (RasterFile \<lparr>info = exInfo 0 3 None, band = [[1, 5, 6], [3, 7, 8]]\<rparr>)"
    by (simp add: run_defs ex_defs)
  show ?thesis
    using g s f pattern_sorted_glob[of exBackend exWorld "''m.tif''" "''*.tif''" None None]
    by simp
qed

section \<open>The sub-window resolver\<close>

text \<open>
  C8. spec-modelled. For a master with row 0 at the top and non-zero pixel sizes, the
  resolver returns the four rounded quotients of the spec when each is within the
  tolerance of its rounding and raises \<open>MisalignedTile\<close> otherwise. The tile
  \<open>(0, 0, 10, 10)\<close> in the master \<open>(0, 0, 20, 20)\<close> at pixel size 1 resolves to
  \<open>xStart = 0, yStart = 10, xWin = 10, yWin = 10\<close> for every tolerance that is not
  negative, and a tile offset by half a pixel is misaligned for every tolerance below
  one half (so that it does not matter which way a half is rounded). The loop of
  \<^verbatim>\<open>combineSimilarRasters\<close> calls the resolver with the master's bounds, pixel size and
  orientation and the tile's bounds.
\<close>

theorem findWithin_rounds:
  assumes "rx \<noteq> 0" and "ry \<noteq> 0"
  shows "tileWindow be mInfo dInfo
          = findWithin (tolerance be) (xMin mInfo, yMin mInfo, xMax mInfo, yMax mInfo)
              (xMin dInfo, yMin dInfo, xMax dInfo, yMax dInfo) (dx mInfo, dy mInfo) (yAtTop mInfo)
       \<and> findWithin tol (masterXMin, masterYMin, masterXMax, masterYMax)
                        (subXMin, subYMin, subXMax, subYMax) (rx, ry) True
          = (if onGrid tol ((subXMin - masterXMin) / rx) \<and> onGrid tol ((masterYMax - subYMax) / ry)
                \<and> onGrid tol ((subXMax - subXMin) / rx) \<and> onGrid tol ((subYMax - subYMin) / ry)
             then Inr \<lparr>xStart = round ((subXMin - masterXMin) / rx),
                       yStart = round ((masterYMax - subYMax) / ry),
                       xWin = round ((subXMax - subXMin) / rx),
                       yWin = round ((subYMax - subYMin) / ry)\<rparr>
             else Inl MisalignedTile)
       \<and> (0 \<le> tol \<longrightarrow>
            findWithin tol (0, 0, 20, 20) (0, 0, 10, 10) (1, 1) True
              = Inr \<lparr>xStart = 0, yStart = 10, xWin = 10, yWin = 10\<rparr>)
       \<and> (tol < 1 / 2 \<longrightarrow>
            findWithin tol (0, 0, 20, 20) (1 / 2, 0, 21 / 2, 10) (1, 1) True = Inl MisalignedTile)"
proof -
  have half: "round (1 / 2 :: real) = 1" by (simp add: round_def)
  show ?thesis
    using assms by (simp add: tileWindow_def bounds_def findWithin_def onGrid_def Let_def half)
qed

theorem findWithin_rounds_witness:
  "(1 :: real) \<noteq> 0 \<and> (0 :: real) \<le> 1 / 1000 \<and> (1 / 1000 :: real) < 1 / 2
   \<and> findWithin (1 / 1000) (0, 0, 20, 20) (0, 0, 10, 10) (1, 1) True
        = Inr \<lparr>xStart = 0, yStart = 10, xWin = 10, yWin = 10\<rparr>
   \<and> findWithin (1 / 1000) (0, 0, 20, 20) (1 / 2, 0, 21 / 2, 10) (1, 1) True = Inl MisalignedTile
   \<and> findWithin (1 / 1000) (0, 0, 20, 20) (3, 4, 8, 6) (1, 1) True
        = Inr \<lparr>xStart = 3, yStart = 14, xWin = 5, yWin = 2\<rparr>"
proof -
  have one: "(1 :: real) \<noteq> 0" by simp
  have g: "onGrid (1 / 1000) 3 \<and> onGrid (1 / 1000) 14 \<and> onGrid (1 / 1000) 5 \<and> onGrid (1 / 1000) 2"
    by (simp add: onGrid_def)
  show ?thesis
    using g findWithin_rounds[OF one one, where tol = "1 / 1000" and masterXMin = 0
        and masterYMin = 0 and masterXMax = 20 and masterYMax = 20 and subXMin = 3
        and subYMin = 4 and subXMax = 8 and subYMax = 6 and be = exBackend
        and mInfo = "info exMaster" and dInfo = "info exSparse"]
    by simp
qed


section \<open>Creating the master\<close>

lemma foldl_min_Min: "foldl min (x :: real) xs = Min (set (x # xs))"
proof (induction xs arbitrary: x)
  case Nil
  then show ?case by simp
next
  case (Cons y ys)
  have "foldl min x (y # ys) = Min (set (min x y # ys))" using Cons by simp
  also have "\<dots> = Min (set (x # y # ys))"
    by (cases "ys = []") (simp_all add: min.assoc)
  finally show ?case .
qed

lemma foldl_max_Max: "foldl max (x :: real) xs = Max (set (x # xs))"
proof (induction xs arbitrary: x)
  case Nil
  then show ?case by simp
next
  case (Cons y ys)
  have "foldl max x (y # ys) = Max (set (max x y # ys))" using Cons by simp
  also have "\<dots> = Max (set (x # y # ys))"
    by (cases "ys = []") (simp_all add: max.assoc)
  finally show ?case .
qed

lemma unionBounds_Cons:
  "unionBounds (first # others) =
     (foldl min (xMin first) (map xMin others), foldl min (yMin first) (map yMin others),
      foldl max (xMax first) (map xMax others), foldl max (yMax first) (map yMax others))"
  by (simp add: unionBounds_def foldl_min_Min foldl_max_Max)

lemma createRaster_InrD:
  assumes "createRaster be bnds dt pw ph nd sr fill = Inr r"
  shows "bounds (info r) = bnds" and "noData (info r) = nd" and "srs (info r) = sr"
    and "dx (info r) = pw" and "dy (info r) = ph" and "dtype (info r) = dt"
    and "list_all (list_all (\<lambda>v. v = (case fill of Some f \<Rightarrow> f | None \<Rightarrow> emptyValue be))) (band r)"
  using assms
  by (auto simp: createRaster_def bounds_def Let_def list_all_iff split: prod.splits if_splits)

lemma openMaster_absent:
  assumes absent: "files w master = None"
      and om: "openMaster be w master (first # others) ndv = (w2, res)"
      and px: "dx first \<noteq> 0" "dy first \<noteq> 0"
  shows "\<exists>r. createRaster be (unionBounds (first # others)) (dtype first) (dx first) (dy first)
               (chooseNoData be ndv (first # others)) (srs first) (chooseNoData be ndv (first # others))
             = Inr r
           \<and> files w2 = (files w)(master \<mapsto> RasterFile r)
           \<and> (\<forall>m. res = Inr m \<longrightarrow> m = r)"
proof -
  let ?c = "createRaster be (unionBounds (first # others)) (dtype first) (dx first) (dy first)
               (chooseNoData be ndv (first # others)) (srs first) (chooseNoData be ndv (first # others))"
  obtain r where r: "?c = Inr r"
    using px by (cases "unionBounds (first # others)") (simp add: createRaster_def Let_def)
  have "files w2 = (files w)(master \<mapsto> RasterFile r) \<and> (\<forall>m. res = Inr m \<longrightarrow> m = r)"
    using om absent r[unfolded unionBounds_Cons]
    by (auto simp: openMaster_def Let_def logged_def split: if_splits)
  with r show ?thesis by blast
qed


lemma addDatasets_master:
  "addDatasets be cf master w m i xs = (w', res) \<Longrightarrow> files w master = Some (RasterFile m0) \<Longrightarrow>
   info m0 = info m \<Longrightarrow>
   \<exists>m'. files w' master = Some (RasterFile m') \<and> info m' = info m"
proof (induction xs arbitrary: w m m0 i)
  case Nil
  then show ?case by simp
next
  case (Cons x xs)
  obtain xi xd where x: "x = (xi, xd)" by (cases x)
  let ?w1 = "logged (TileMerge i) w"
  show ?case
  proof (cases "loadRaster (files ?w1) xd")
    case (Inl e)
    with Cons.prems show ?thesis by (auto simp: x Let_def logged_def)
  next
    case (Inr r)
    show ?thesis
    proof (cases "applyTile be cf m xi (band r)")
      case (Inl e)
      with Cons.prems Inr show ?thesis by (auto simp: x Let_def logged_def)
    next
      case ap: (Inr m2)
      let ?w2 = "?w1\<lparr>files := (files ?w1)(master \<mapsto> RasterFile m2)\<rparr>"
      from Cons.prems(1) Inr ap
      have rest: "addDatasets be cf master ?w2 m2 (Suc i) xs = (w', res)"
        by (simp add: x Let_def)
      have "files ?w2 master = Some (RasterFile m2)" by simp
      from Cons.IH[OF rest this refl] applyTile_info[OF ap] show ?thesis by auto
    qed
  qed
qed

lemma readDatasets_files:
  assumes "readDatasets be w datasets = (w1, r)"
  shows "files w1 = files w"
proof -
  obtain w0 ds where ld: "listDatasets be w datasets = (w0, ds)" by (cases "listDatasets be w datasets")
  have w0: "files w0 = files w"
    using ld by (auto simp: listDatasets_def logged_def split: datasets.splits)
  obtain w2 r2 where ri: "rasterInfos w0 0 ds = (w2, r2)" by (cases "rasterInfos w0 0 ds")
  from rasterInfos_world[OF ri] have "files w2 = files w0" by simp
  with assms ld ri w0 show ?thesis
    by (auto simp: readDatasets_def split: if_splits sum.splits list.splits option.splits)
qed

lemma combine_after_open:
  assumes "readDatasets be w datasets = (w1, Inr (ds, infoSet))"
      and "openMaster be w1 master infoSet ndv = (w2, res)"
      and "files w2 master = Some (RasterFile r)"
      and "\<forall>m. res = Inr m \<longrightarrow> m = r"
  shows "\<exists>m'. files (fst (combineSimilarRasters be w master datasets cf ndv)) master
                 = Some (RasterFile m') \<and> info m' = info r"
proof (cases res)
  case (Inl e)
  then show ?thesis using assms by (simp add: combineSimilarRasters_def)
next
  case (Inr m)
  then have m: "m = r" using assms(4) by simp
  obtain w3 res3 where loop: "addDatasets be cf master w2 r 0 (zip infoSet ds) = (w3, res3)"
    by (cases "addDatasets be cf master w2 r 0 (zip infoSet ds)")
  from addDatasets_master[OF loop assms(3) refl] obtain m' where
    "files w3 master = Some (RasterFile m')" "info m' = info r" by blast
  then show ?thesis
    using assms(1,2) Inr m loop
    by (cases res3) (simp_all add: combineSimilarRasters_def logged_def)
qed

text \<open>
  C4. When the tiles pass the validation of lines 9 to 29, no file is at the master's
  path and the pixel size is not zero, the call leaves a master at that path, whatever
  happens in the loop, and the bounding box of that master is the union of the tiles'
  bounding boxes: the least \<open>xMin\<close> and \<open>yMin\<close>, the greatest \<open>xMax\<close> and \<open>yMax\<close>.
\<close>

theorem new_master_bounds:
  assumes valid: "readDatasets be w datasets = (w1, Inr (ds, infoSet))"
      and absent: "files w master = None"
      and px: "dx (hd infoSet) \<noteq> 0" "dy (hd infoSet) \<noteq> 0"
  shows "\<exists>m. files (fst (combineSimilarRasters be w master datasets combiningFunc noDataValue)) master
               = Some (RasterFile m)
           \<and> xMin (info m) = Min (xMin ` set infoSet)
           \<and> yMin (info m) = Min (yMin ` set infoSet)
           \<and> xMax (info m) = Max (xMax ` set infoSet)
           \<and> yMax (info m) = Max (yMax ` set infoSet)"
proof -
  from readDatasets_InrD(4)[OF valid] obtain first others where i: "infoSet = first # others"
    by (cases infoSet) auto
  have a1: "files w1 master = None" using readDatasets_files[OF valid] absent by simp
  obtain w2 res where om: "openMaster be w1 master (first # others) noDataValue = (w2, res)"
    by (cases "openMaster be w1 master (first # others) noDataValue")
  from openMaster_absent[OF a1 om] px i obtain r where
    cr: "createRaster be (unionBounds infoSet) (dtype first) (dx first) (dy first)
               (chooseNoData be noDataValue infoSet) (srs first) (chooseNoData be noDataValue infoSet)
             = Inr r"
    and f2: "files w2 master = Some (RasterFile r)"
    and res: "\<forall>m. res = Inr m \<longrightarrow> m = r"
    by auto
  from combine_after_open[OF valid om[folded i] f2 res] obtain m' where
    m': "files (fst (combineSimilarRasters be w master datasets combiningFunc noDataValue)) master
                 = Some (RasterFile m')" "info m' = info r"
    by blast
  have "bounds (info m') = unionBounds infoSet"
    using createRaster_InrD(1)[OF cr] m'(2) by simp
  then show ?thesis using m'(1) by (auto simp: bounds_def unionBounds_def)
qed

theorem new_master_bounds_witness:
  "readDatasets exBackend exWorld (Iterable [Dataset exA, Dataset exB])
     = (exWorld\<lparr>events := [InfoRead 0, InfoRead 1]\<rparr>,
        Inr ([Dataset exA, Dataset exB], [info exA, info exB]))
   \<and> files exWorld ''m.tif'' = None
   \<and> dx (hd [info exA, info exB]) \<noteq> 0 \<and> dy (hd [info exA, info exB]) \<noteq> 0
   \<and> files (fst (combineSimilarRasters exBackend exWorld ''m.tif''
                    (Iterable [Dataset exA, Dataset exB]) None None)) ''m.tif''
       = Some (RasterFile \<lparr>info = exInfo 0 3 None, band = [[1, 5, 6], [3, 7, 8]]\<rparr>)
   \<and> Min (xMin ` set [info exA, info exB]) = 0 \<and> Min (yMin ` set [info exA, info exB]) = 0
   \<and> Max (xMax ` set [info exA, info exB]) = 3 \<and> Max (yMax ` set [info exA, info exB]) = 2"
proof -
  have h1: "readDatasets exBackend exWorld (Iterable [Dataset exA, Dataset exB])
     = (exWorld\<lparr>events := [InfoRead 0, InfoRead 1]\<rparr>,
        Inr ([Dataset exA, Dataset exB], [info exA, info exB]))"
    by (simp add: run_defs ex_defs)
  have h2: "files exWorld ''m.tif'' = None" by (simp add: ex_defs)
  have h3: "dx (hd [info exA, info exB]) \<noteq> 0" by (simp add: ex_defs)
  have h4: "dy (hd [info exA, info exB]) \<noteq> 0" by (simp add: ex_defs)
  have f: "files (fst (combineSimilarRasters exBackend exWorld ''m.tif''
                    (Iterable [Dataset exA, Dataset exB]) None None)) ''m.tif''
       = Some (RasterFile \<lparr>info = exInfo 0 3 None, band = [[1, 5, 6], [3, 7, 8]]\<rparr>)"
    by (simp add: run_defs ex_defs)
  have x: "xMin (exInfo 0 3 None) = 0" "yMin (exInfo 0 3 None) = 0"
      "xMax (exInfo 0 3 None) = 3" "yMax (exInfo 0 3 None) = 2"
    by (simp_all add: exInfo_def)
  show ?thesis
    using h1 h2 h3 h4 f x new_master_bounds[OF h1 h2 h3 h4, where combiningFunc = None and noDataValue = None]
    by auto
qed

















end
